theory Spec2Isabelle
  imports Complex_Main "HOL-Library.Multiset"
begin

section \<open>JavaScript numbers\<close>

text \<open>
  A JavaScript number is an IEEE double. In this section the finite values are
  idealised as reals, and the operations are exact: rounding and overflow are not
  modelled. The three special values are kept, since the aggregation code divides by
  sums that can be zero and parses dates that can be invalid. Negative zero is not
  modelled: every divisor of the code is a sum \<^verbatim>\<open>1 + x\<close>, whose zero is the
  positive one. Where the rounding decides, in the comparison of two recommended scores,
  the operations are the rounded ones of the section on double arithmetic.
\<close>

datatype jsnum = Num real | PosInf | NegInf | NaN

fun js_neg :: "jsnum \<Rightarrow> jsnum" where
  "js_neg (Num a) = Num (- a)"
| "js_neg PosInf = NegInf"
| "js_neg NegInf = PosInf"
| "js_neg NaN = NaN"

fun js_add :: "jsnum \<Rightarrow> jsnum \<Rightarrow> jsnum" where
  "js_add (Num a) (Num b) = Num (a + b)"
| "js_add NaN _ = NaN"
| "js_add _ NaN = NaN"
| "js_add PosInf NegInf = NaN"
| "js_add NegInf PosInf = NaN"
| "js_add PosInf _ = PosInf"
| "js_add _ PosInf = PosInf"
| "js_add NegInf _ = NegInf"
| "js_add _ NegInf = NegInf"

definition js_sub :: "jsnum \<Rightarrow> jsnum \<Rightarrow> jsnum" where
  "js_sub a b = js_add a (js_neg b)"

text \<open>The sign of a number that is not NaN: \<open>-1\<close>, \<open>0\<close> or \<open>1\<close>.\<close>

fun js_sign :: "jsnum \<Rightarrow> int" where
  "js_sign (Num a) = (if a < 0 then - 1 else if a = 0 then 0 else 1)"
| "js_sign PosInf = 1"
| "js_sign NegInf = - 1"
| "js_sign NaN = 0"

definition signed_inf :: "int \<Rightarrow> jsnum" where
  "signed_inf s = (if s < 0 then NegInf else if s = 0 then NaN else PosInf)"

fun js_mul :: "jsnum \<Rightarrow> jsnum \<Rightarrow> jsnum" where
  "js_mul (Num a) (Num b) = Num (a * b)"
| "js_mul NaN _ = NaN"
| "js_mul _ NaN = NaN"
| "js_mul a b = signed_inf (js_sign a * js_sign b)"

fun js_div :: "jsnum \<Rightarrow> jsnum \<Rightarrow> jsnum" where
  "js_div (Num a) (Num b) = (if b = 0 then signed_inf (js_sign (Num a)) else Num (a / b))"
| "js_div NaN _ = NaN"
| "js_div _ NaN = NaN"
| "js_div (Num a) _ = Num 0"
| "js_div a (Num b) = signed_inf (js_sign a * (if b < 0 then - 1 else 1))"
| "js_div _ _ = NaN"

fun js_lt :: "jsnum \<Rightarrow> jsnum \<Rightarrow> bool" where
  "js_lt (Num a) (Num b) = (a < b)"
| "js_lt NaN _ = False"
| "js_lt _ NaN = False"
| "js_lt NegInf b = (b \<noteq> NegInf)"
| "js_lt a PosInf = (a \<noteq> PosInf)"
| "js_lt _ _ = False"

definition js_gt :: "jsnum \<Rightarrow> jsnum \<Rightarrow> bool" where
  "js_gt a b = js_lt b a"

definition js_le :: "jsnum \<Rightarrow> jsnum \<Rightarrow> bool" where
  "js_le a b = (a \<noteq> NaN \<and> b \<noteq> NaN \<and> (js_lt a b \<or> a = b))"

definition js_ge :: "jsnum \<Rightarrow> jsnum \<Rightarrow> bool" where
  "js_ge a b = js_le b a"

definition js_min :: "jsnum \<Rightarrow> jsnum \<Rightarrow> jsnum" where
  "js_min a b = (if a = NaN \<or> b = NaN then NaN else if js_lt b a then b else a)"

definition js_max :: "jsnum \<Rightarrow> jsnum \<Rightarrow> jsnum" where
  "js_max a b = (if a = NaN \<or> b = NaN then NaN else if js_lt a b then b else a)"

fun js_abs :: "jsnum \<Rightarrow> jsnum" where
  "js_abs (Num a) = Num \<bar>a\<bar>"
| "js_abs NaN = NaN"
| "js_abs _ = PosInf"

fun js_log10 :: "jsnum \<Rightarrow> jsnum" where
  "js_log10 (Num a) = (if a < 0 then NaN else if a = 0 then NegInf else Num (log 10 a))"
| "js_log10 PosInf = PosInf"
| "js_log10 _ = NaN"

fun js_sin :: "jsnum \<Rightarrow> jsnum" where
  "js_sin (Num a) = Num (sin a)"
| "js_sin _ = NaN"

fun js_cos :: "jsnum \<Rightarrow> jsnum" where
  "js_cos (Num a) = Num (cos a)"
| "js_cos _ = NaN"

fun js_sqrt :: "jsnum \<Rightarrow> jsnum" where
  "js_sqrt (Num a) = (if a < 0 then NaN else Num (sqrt a))"
| "js_sqrt PosInf = PosInf"
| "js_sqrt _ = NaN"

text \<open>The angle of the point \<open>(x, y)\<close>, in \<open>(-\<pi>, \<pi>]\<close>; at the origin it is \<open>0\<close>.\<close>

definition atan2 :: "real \<Rightarrow> real \<Rightarrow> real" where
  "atan2 y x =
     (if 0 < x then arctan (y / x)
      else if x < 0 then (if 0 \<le> y then arctan (y / x) + pi else arctan (y / x) - pi)
      else if 0 < y then pi / 2
      else if y < 0 then - (pi / 2)
      else 0)"

fun js_atan2 :: "jsnum \<Rightarrow> jsnum \<Rightarrow> jsnum" where
  "js_atan2 (Num y) (Num x) = Num (atan2 y x)"
| "js_atan2 NaN _ = NaN"
| "js_atan2 _ NaN = NaN"
| "js_atan2 (Num y) PosInf = Num 0"
| "js_atan2 (Num y) NegInf = Num (if y < 0 then - pi else pi)"
| "js_atan2 PosInf (Num x) = Num (pi / 2)"
| "js_atan2 NegInf (Num x) = Num (- (pi / 2))"
| "js_atan2 PosInf PosInf = Num (pi / 4)"
| "js_atan2 PosInf NegInf = Num (3 * pi / 4)"
| "js_atan2 NegInf PosInf = Num (- (pi / 4))"
| "js_atan2 NegInf NegInf = Num (- (3 * pi / 4))"

text \<open>
  Truthiness, as \<^verbatim>\<open>if (x)\<close>, \<^verbatim>\<open>x && y\<close> and \<^verbatim>\<open>x || y\<close> test it: of a
  number, everything but zero and NaN; of a string, everything but the empty one; an
  absent (\<^verbatim>\<open>undefined\<close>) field is falsy.
\<close>

fun truthy :: "jsnum \<Rightarrow> bool" where
  "truthy (Num a) = (a \<noteq> 0)"
| "truthy NaN = False"
| "truthy _ = True"

fun truthyS :: "string option \<Rightarrow> bool" where
  "truthyS None = False"
| "truthyS (Some s) = (s \<noteq> [])"

section \<open>Geo utility\<close>

definition getDistance :: "jsnum \<Rightarrow> jsnum \<Rightarrow> jsnum \<Rightarrow> jsnum \<Rightarrow> jsnum" where
  "getDistance lat1 lng1 lat2 lng2 =
     (let R = Num 6371000;
          phi1 = js_div (js_mul lat1 (Num pi)) (Num 180);
          phi2 = js_div (js_mul lat2 (Num pi)) (Num 180);
          dphi = js_div (js_mul (js_sub lat2 lat1) (Num pi)) (Num 180);
          dlam = js_div (js_mul (js_sub lng2 lng1) (Num pi)) (Num 180);
          a = js_add (js_mul (js_sin (js_div dphi (Num 2))) (js_sin (js_div dphi (Num 2))))
                (js_mul (js_mul (js_mul (js_cos phi1) (js_cos phi2))
                           (js_sin (js_div dlam (Num 2))))
                   (js_sin (js_div dlam (Num 2))));
          c = js_mul (Num 2) (js_atan2 (js_sqrt a) (js_sqrt (js_sub (Num 1) a)))
      in js_mul R c)"

section \<open>Text similarity utility\<close>

text \<open>
  A string is a list of code units. The model covers the code units below 256 (ASCII
  and Latin-1), which a \<^typ>\<open>char\<close> holds; on these \<^verbatim>\<open>toLowerCase\<close> moves the
  capital letters by 32, and the white space of \<^verbatim>\<open>trim\<close> and \<^verbatim>\<open>\s\<close> is
  tab, line feed, vertical tab, form feed, carriage return, space and no-break space.
\<close>

definition toLowerChar :: "char \<Rightarrow> char" where
  "toLowerChar c =
     (let n = (of_char c :: nat)
      in if (65 \<le> n \<and> n \<le> 90) \<or> (192 \<le> n \<and> n \<le> 222 \<and> n \<noteq> 215)
         then char_of (n + 32) else c)"

definition toLowerCase :: "string \<Rightarrow> string" where
  "toLowerCase s = map toLowerChar s"

definition isSpace :: "char \<Rightarrow> bool" where
  "isSpace c = ((of_char c :: nat) \<in> {9, 10, 11, 12, 13, 32, 160})"

definition isWord :: "char \<Rightarrow> bool" where
  "isWord c =
     (let n = (of_char c :: nat)
      in (48 \<le> n \<and> n \<le> 57) \<or> (65 \<le> n \<and> n \<le> 90) \<or> n = 95 \<or> (97 \<le> n \<and> n \<le> 122))"

definition trim :: "string \<Rightarrow> string" where
  "trim s = rev (dropWhile isSpace (rev (dropWhile isSpace s)))"

text \<open>
  One row of the edit-distance matrix from the row above it: \<open>c\<close> is the character of
  the second string for this row, \<open>diag\<close> and \<open>up\<close> walk the row above, \<open>left\<close> is the
  entry just written.
\<close>

fun levRow :: "char \<Rightarrow> string \<Rightarrow> nat list \<Rightarrow> nat \<Rightarrow> nat list" where
  "levRow c (a # as) (diag # up # rest) left =
     (let v = (if c = a then diag else min (diag + 1) (min (left + 1) (up + 1)))
      in v # levRow c as (up # rest) v)"
| "levRow c _ _ left = []"

fun levRows :: "string \<Rightarrow> string \<Rightarrow> nat list \<Rightarrow> nat \<Rightarrow> nat list" where
  "levRows str1 [] row i = row"
| "levRows str1 (c # cs) row i = levRows str1 cs (i # levRow c str1 row i) (i + 1)"

definition levenshteinDistance :: "string \<Rightarrow> string \<Rightarrow> nat" where
  "levenshteinDistance str1 str2 = last (levRows str1 str2 [0 ..< length str1 + 1] 1)"

definition stringSimilarity :: "string \<Rightarrow> string \<Rightarrow> real" where
  "stringSimilarity str1 str2 =
     (let s1 = trim (toLowerCase str1);
          s2 = trim (toLowerCase str2)
      in if s1 = s2 then 1
         else if length s1 = 0 \<or> length s2 = 0 then 0
         else (let maxLen = max (length s1) (length s2);
                   editDistance = levenshteinDistance s1 s2
               in 1 - real editDistance / real maxLen))"

section \<open>Data model\<close>

datatype HappenCategory = Event | Exhibition | Attraction | Seminar | Tour

text \<open>An optional field is an \<open>option\<close>: \<open>None\<close> is \<^verbatim>\<open>undefined\<close>.\<close>

record ProviderItem =
  externalId :: string
  source :: string
  title :: string
  description :: "string option"
  category :: "HappenCategory list"
  startTime :: "string option"
  endTime :: "string option"
  timezone :: "string option"
  venueName :: "string option"
  address :: "string option"
  city :: "string option"
  lat :: "jsnum option"
  lng :: "jsnum option"
  priceMin :: "jsnum option"
  priceMax :: "jsnum option"
  currency :: "string option"
  url :: string
  imageUrl :: "string option"
  tags :: "string list option"
  isFamilyFriendly :: "bool option"
  isIndoor :: "bool option"
  language :: "string option"
  lastUpdated :: "string option"
  popularity :: "jsnum option"
  attendeeCount :: "jsnum option"

record NormalizedItem = ProviderItem +
  id' :: string
  normalizedTitle :: string
  score :: "jsnum option"

text \<open>
  The runtime's services are arguments of the functions that call them:
  \<^item> \<open>tm\<close>, the reading of \<^verbatim>\<open>new Date(s).getTime()\<close>: the milliseconds since the
    epoch, or \<open>None\<close> for an invalid date (whose time value is NaN);
  \<^item> \<open>now\<close>, the reading of \<^verbatim>\<open>Date.now()\<close>, and \<open>nowISO\<close>, that of
    \<^verbatim>\<open>new Date().toISOString()\<close>, each taken once for a pass over the items;
  \<^item> \<open>sha256hex\<close>, the hexadecimal SHA-256 digest of a string;
  \<^item> \<open>reZone from to s\<close>, the result of
    \<^verbatim>\<open>DateTime.fromISO(s, {zone: from}).setZone(to).toISO()\<close>, \<open>None\<close> when it is
    \<^verbatim>\<open>null\<close> or the call throws.
\<close>

type_synonym clock = "string \<Rightarrow> int option"

definition getTime :: "clock \<Rightarrow> string \<Rightarrow> jsnum" where
  "getTime tm s = (case tm s of None \<Rightarrow> NaN | Some t \<Rightarrow> Num (real_of_int t))"

section \<open>Item normalizer\<close>

definition passesFilter :: "HappenCategory list option \<Rightarrow> ProviderItem \<Rightarrow> bool" where
  "passesFilter filterCategories item =
     (case filterCategories of
        None \<Rightarrow> True
      | Some cats \<Rightarrow>
          if length cats = 0 then True
          else list_ex (\<lambda>cat. List.member cats cat) (category item))"

function collapseSpaces :: "string \<Rightarrow> string" where
  "collapseSpaces [] = []"
| "collapseSpaces (c # cs) =
     (if isSpace c then CHR '' '' # collapseSpaces (dropWhile isSpace cs)
      else c # collapseSpaces cs)"
  by pat_completeness auto
termination
  by (relation "measure length") (auto simp: length_dropWhile_le less_Suc_eq_le)

definition normalizeTitle :: "string \<Rightarrow> string" where
  "normalizeTitle t =
     collapseSpaces (filter (\<lambda>c. isWord c \<or> isSpace c) (trim (toLowerCase t)))"

definition convertTime ::
  "(string \<Rightarrow> string \<Rightarrow> string \<Rightarrow> string option) \<Rightarrow> string \<Rightarrow> string option \<Rightarrow>
   string option \<Rightarrow> string option" where
  "convertTime reZone tz itemTz t =
     (case (t, itemTz) of
        (Some s, Some z) \<Rightarrow>
          if s \<noteq> [] \<and> z \<noteq> [] \<and> z \<noteq> tz
          then (case reZone z tz s of
                  Some r \<Rightarrow> if r \<noteq> [] then Some r else Some s
                | None \<Rightarrow> Some s)
          else Some s
      | _ \<Rightarrow> t)"

definition normalizeItem ::
  "(string \<Rightarrow> string) \<Rightarrow> (string \<Rightarrow> string \<Rightarrow> string \<Rightarrow> string option) \<Rightarrow> string \<Rightarrow>
   string \<Rightarrow> ProviderItem \<Rightarrow> NormalizedItem" where
  "normalizeItem sha256hex reZone nowISO tz item =
     ProviderItem.extend
       (item\<lparr>startTime := convertTime reZone tz (timezone item) (startTime item),
              endTime := convertTime reZone tz (timezone item) (endTime item),
              timezone := Some tz,
              lastUpdated := (if truthyS (lastUpdated item) then lastUpdated item
                              else Some nowISO)\<rparr>)
       (NormalizedItem.fields
          (take 16 (sha256hex (source item @ '':'' @ externalId item)))
          (normalizeTitle (title item))
          None)"

definition normalizeItems ::
  "(string \<Rightarrow> string) \<Rightarrow> (string \<Rightarrow> string \<Rightarrow> string \<Rightarrow> string option) \<Rightarrow> string \<Rightarrow>
   ProviderItem list \<Rightarrow> string \<Rightarrow> HappenCategory list option \<Rightarrow> NormalizedItem list" where
  "normalizeItems sha256hex reZone nowISO items tz filterCategories =
     map (normalizeItem sha256hex reZone nowISO tz)
       (filter (passesFilter filterCategories) items)"

section \<open>Date-range filter\<close>

definition inDateRange :: "clock \<Rightarrow> string \<Rightarrow> string \<Rightarrow> NormalizedItem \<Rightarrow> bool" where
  "inDateRange tm startISO endISO item =
     (let startDate = getTime tm startISO;
          endDate = getTime tm endISO
      in if \<not> truthyS (startTime item) \<and> List.member (category item) Attraction then True
         else (case startTime item of
                 Some s \<Rightarrow>
                   if s \<noteq> [] then
                     (let itemStart = getTime tm s;
                          itemEnd = (case endTime item of
                                       Some e \<Rightarrow> if e \<noteq> [] then getTime tm e else itemStart
                                     | None \<Rightarrow> itemStart)
                      in js_le itemStart endDate \<and> js_ge itemEnd startDate)
                   else False
               | None \<Rightarrow> False))"

definition filterByDateRange ::
  "clock \<Rightarrow> NormalizedItem list \<Rightarrow> string \<Rightarrow> string \<Rightarrow> NormalizedItem list" where
  "filterByDateRange tm items startISO endISO = filter (inDateRange tm startISO endISO) items"

section \<open>Deduplicator\<close>

definition isDuplicateOf :: "clock \<Rightarrow> NormalizedItem \<Rightarrow> NormalizedItem \<Rightarrow> bool" where
  "isDuplicateOf tm item uniqueItem =
     (let titleSimilarity = stringSimilarity (normalizedTitle item) (normalizedTitle uniqueItem);
          timeSimilar =
            (case (startTime item, startTime uniqueItem) of
               (Some s1, Some s2) \<Rightarrow>
                 if s1 \<noteq> [] \<and> s2 \<noteq> []
                 then js_lt (js_abs (js_sub (getTime tm s1) (getTime tm s2))) (Num (30 * 60 * 1000))
                 else False
             | _ \<Rightarrow> False);
          locationSimilar =
            (case (lat item, lng item, lat uniqueItem, lng uniqueItem) of
               (Some la1, Some lo1, Some la2, Some lo2) \<Rightarrow>
                 if truthy la1 \<and> truthy lo1 \<and> truthy la2 \<and> truthy lo2
                 then js_lt (getDistance la1 lo1 la2 lo2) (Num 200)
                 else False
             | _ \<Rightarrow> False)
      in (titleSimilarity > 0.9 \<and> timeSimilar) \<or>
         (titleSimilarity > 0.8 \<and> locationSimilar \<and> timeSimilar))"

definition hasMoreInfo :: "NormalizedItem \<Rightarrow> NormalizedItem \<Rightarrow> bool" where
  "hasMoreInfo item uniqueItem =
     ((\<not> truthyS (description uniqueItem) \<and> truthyS (description item)) \<or>
      (\<not> truthyS (imageUrl uniqueItem) \<and> truthyS (imageUrl item)) \<or>
      (case popularity item of
         None \<Rightarrow> False
       | Some p \<Rightarrow>
           truthy p \<and>
           (case popularity uniqueItem of
              None \<Rightarrow> True
            | Some q \<Rightarrow> \<not> truthy q \<or> js_gt p q)))"

text \<open>
  \<^verbatim>\<open>indexOf\<close> finds the first position holding its argument. JavaScript compares
  objects by reference, the model by value; a representative reached by the scan has no
  equal before it (an equal one would have matched first), so both find the same
  position.
\<close>

fun indexOf :: "'a list \<Rightarrow> 'a \<Rightarrow> nat option" where
  "indexOf [] x = None"
| "indexOf (y # ys) x = (if y = x then Some 0 else map_option Suc (indexOf ys x))"

text \<open>
  The inner loop, from position \<open>k\<close> on: the flag \<^verbatim>\<open>isDuplicate\<close> and the list of
  representatives as the loop leaves it. (The set \<^verbatim>\<open>seen\<close> of the source is never
  read or written, and has no counterpart here.)
\<close>

function scanUnique ::
  "clock \<Rightarrow> NormalizedItem \<Rightarrow> NormalizedItem list \<Rightarrow> nat \<Rightarrow> bool \<times> NormalizedItem list" where
  "scanUnique tm item uniqueItems k =
     (if k < length uniqueItems then
        (let uniqueItem = uniqueItems ! k
         in if isDuplicateOf tm item uniqueItem then
              (True,
               if hasMoreInfo item uniqueItem then
                 (case indexOf uniqueItems uniqueItem of
                    Some index \<Rightarrow> uniqueItems[index := item\<lparr>id' := id' uniqueItem\<rparr>]
                  | None \<Rightarrow> uniqueItems)
               else uniqueItems)
            else scanUnique tm item uniqueItems (k + 1))
      else (False, uniqueItems))"
  by pat_completeness auto
termination
  by (relation "measure (\<lambda>(tm, item, uniqueItems, k). length uniqueItems - k)") auto

declare scanUnique.simps [simp del]

definition dedupeStep :: "clock \<Rightarrow> NormalizedItem list \<Rightarrow> NormalizedItem \<Rightarrow> NormalizedItem list" where
  "dedupeStep tm uniqueItems item =
     (case scanUnique tm item uniqueItems 0 of
        (isDuplicate, uniqueItems') \<Rightarrow>
          if \<not> isDuplicate then uniqueItems' @ [item] else uniqueItems')"

definition dedupe :: "clock \<Rightarrow> NormalizedItem list \<Rightarrow> NormalizedItem list" where
  "dedupe tm items = foldl (dedupeStep tm) [] items"

section \<open>Ranker\<close>

datatype SortBy = Recommended | Soonest | Closest | Price

fun categoryWeights :: "HappenCategory \<Rightarrow> jsnum" where
  "categoryWeights Event = Num 1"
| "categoryWeights Exhibition = Num 1.2"
| "categoryWeights Attraction = Num 1.1"
| "categoryWeights Seminar = Num 1.3"
| "categoryWeights Tour = Num 1.2"

definition orElse :: "jsnum \<Rightarrow> jsnum \<Rightarrow> jsnum" where
  "orElse a b = (if truthy a then a else b)"

text \<open>
  The recommended score is a sum that the code builds term by term, each block adding
  to the score so far: popularity, attendance, recency, distance from the center,
  completeness, category boost, and time relevance. Here the sums are exact, and the
  clock is read once for a whole ranking; the section on double arithmetic has the
  same blocks with every operation rounded and both readings of the clock.
\<close>

definition addPopularity :: "NormalizedItem \<Rightarrow> jsnum \<Rightarrow> jsnum" where
  "addPopularity item sofar =
     (case popularity item of
        Some p \<Rightarrow> if truthy p then js_add sofar (js_mul p (Num 30)) else sofar
      | None \<Rightarrow> sofar)"

definition addAttendance :: "NormalizedItem \<Rightarrow> jsnum \<Rightarrow> jsnum" where
  "addAttendance item sofar =
     (case attendeeCount item of
        Some n \<Rightarrow>
          if truthy n
          then js_add sofar (js_min (Num 10) (js_mul (js_log10 (js_add n (Num 1))) (Num 2)))
          else sofar
      | None \<Rightarrow> sofar)"

definition addRecency :: "clock \<Rightarrow> int \<Rightarrow> NormalizedItem \<Rightarrow> jsnum \<Rightarrow> jsnum" where
  "addRecency tm now item sofar =
     (case lastUpdated item of
        Some u \<Rightarrow>
          if u \<noteq> [] then
            (let hoursSinceUpdate =
                   js_div (js_sub (Num (real_of_int now)) (getTime tm u)) (Num (1000 * 60 * 60))
             in js_add sofar (js_max (Num 0) (js_sub (Num 20) (js_div hoursSinceUpdate (Num 24)))))
          else sofar
      | None \<Rightarrow> sofar)"

definition addProximity :: "(jsnum \<times> jsnum) option \<Rightarrow> NormalizedItem \<Rightarrow> jsnum \<Rightarrow> jsnum" where
  "addProximity center item sofar =
     (case (center, lat item, lng item) of
        (Some (c0, c1), Some la, Some lo) \<Rightarrow>
          if truthy la \<and> truthy lo then
            (let distance = getDistance c0 c1 la lo
             in js_add sofar (js_max (Num 0) (js_sub (Num 20) (js_div distance (Num 1000)))))
          else sofar
      | _ \<Rightarrow> sofar)"

definition addCompleteness :: "NormalizedItem \<Rightarrow> jsnum \<Rightarrow> jsnum" where
  "addCompleteness item sofar =
     (let sofar = (if truthyS (description item) then js_add sofar (Num 3) else sofar);
          sofar = (if truthyS (imageUrl item) then js_add sofar (Num 3) else sofar);
          sofar = (if truthyS (venueName item) then js_add sofar (Num 3) else sofar);
          sofar = (if truthyS (address item) then js_add sofar (Num 3) else sofar)
      in if priceMin item \<noteq> None then js_add sofar (Num 3) else sofar)"

definition addCategoryBoost :: "NormalizedItem \<Rightarrow> jsnum \<Rightarrow> jsnum" where
  "addCategoryBoost item sofar =
     (let categoryBoost =
            foldl (\<lambda>acc cat. js_add acc (orElse (categoryWeights cat) (Num 1))) (Num 0)
              (category item)
      in js_add sofar (js_min (Num 10) (js_mul categoryBoost (Num 2))))"

definition addTimeRelevance :: "clock \<Rightarrow> int \<Rightarrow> NormalizedItem \<Rightarrow> jsnum \<Rightarrow> jsnum" where
  "addTimeRelevance tm now item sofar =
     (case startTime item of
        Some s \<Rightarrow>
          if s \<noteq> [] then
            (let daysUntil =
                   js_div (js_sub (getTime tm s) (Num (real_of_int now)))
                     (Num (1000 * 60 * 60 * 24))
             in if js_lt daysUntil (Num 1) then js_add sofar (Num 5)
                else if js_lt daysUntil (Num 3) then js_add sofar (Num 3)
                else if js_lt daysUntil (Num 7) then js_add sofar (Num 1)
                else sofar)
          else sofar
      | None \<Rightarrow> sofar)"

definition recommendedScore ::
  "clock \<Rightarrow> int \<Rightarrow> (jsnum \<times> jsnum) option \<Rightarrow> NormalizedItem \<Rightarrow> jsnum" where
  "recommendedScore tm now center item =
     (let score = Num 0;
          score = addPopularity item score;
          score = addAttendance item score;
          score = addRecency tm now item score;
          score = addProximity center item score;
          score = addCompleteness item score;
          score = addCategoryBoost item score
      in addTimeRelevance tm now item score)"

definition scoreItem ::
  "clock \<Rightarrow> int \<Rightarrow> (jsnum \<times> jsnum) option \<Rightarrow> SortBy \<Rightarrow> NormalizedItem \<Rightarrow> jsnum" where
  "scoreItem tm now center sortBy item =
     (if sortBy = Soonest then
        (case startTime item of
           Some s \<Rightarrow>
             if s \<noteq> [] then
               (let timeUntil = js_sub (getTime tm s) (Num (real_of_int now))
                in js_div (Num 1) (js_add (Num 1) timeUntil))
             else Num 0
         | None \<Rightarrow> Num 0)
      else if sortBy = Closest \<and> center \<noteq> None then
        (case (center, lat item, lng item) of
           (Some (c0, c1), Some la, Some lo) \<Rightarrow>
             if truthy la \<and> truthy lo then
               (let distance = getDistance c0 c1 la lo
                in js_div (Num 1) (js_add (Num 1) distance))
             else Num 0
         | _ \<Rightarrow> Num 0)
      else if sortBy = Price then
        (case priceMin item of
           Some p \<Rightarrow> js_div (Num 1) (js_add (Num 1) p)
         | None \<Rightarrow> Num 1)
      else recommendedScore tm now center item)"

text \<open>
  \<^verbatim>\<open>Array.prototype.sort\<close> is stable, and for a comparator that is consistent with
  a total preorder its result is the one stable sorted arrangement, which insertion
  from the right computes. An element moves behind another when the comparator is
  positive; a comparator value of NaN counts as zero.
\<close>

fun insertSorted :: "('a \<Rightarrow> 'a \<Rightarrow> jsnum) \<Rightarrow> 'a \<Rightarrow> 'a list \<Rightarrow> 'a list" where
  "insertSorted cmp x [] = [x]"
| "insertSorted cmp x (y # ys) =
     (if js_gt (cmp x y) (Num 0) then y # insertSorted cmp x ys else x # y # ys)"

fun jsSort :: "('a \<Rightarrow> 'a \<Rightarrow> jsnum) \<Rightarrow> 'a list \<Rightarrow> 'a list" where
  "jsSort cmp [] = []"
| "jsSort cmp (x # xs) = insertSorted cmp x (jsSort cmp xs)"

definition scoreOrZero :: "NormalizedItem \<Rightarrow> jsnum" where
  "scoreOrZero a = (case score a of Some v \<Rightarrow> orElse v (Num 0) | None \<Rightarrow> Num 0)"

definition compareScore :: "NormalizedItem \<Rightarrow> NormalizedItem \<Rightarrow> jsnum" where
  "compareScore a b = js_sub (scoreOrZero b) (scoreOrZero a)"

record RankParams =
  center :: "(jsnum \<times> jsnum) option"
  sortBy :: "SortBy option"

definition rank :: "clock \<Rightarrow> int \<Rightarrow> NormalizedItem list \<Rightarrow> RankParams \<Rightarrow> NormalizedItem list" where
  "rank tm now items params =
     (let sortBy' = (case sortBy params of None \<Rightarrow> Recommended | Some s \<Rightarrow> s);
          scoredItems =
            map (\<lambda>item. item\<lparr>score := Some (scoreItem tm now (center params) sortBy' item)\<rparr>) items
      in jsSort compareScore scoredItems)"

section \<open>Double arithmetic\<close>

text \<open>
  Where two sums are compared, the rounding of each sum decides. A double has 53
  significant bits: from \<open>2 ^ e\<close> to \<open>2 ^ (e + 1)\<close> the doubles are the multiples of
  \<open>2 ^ (e - 52)\<close> (the unit in the last place), and below \<open>2 ^ (- 1022)\<close> they are the
  multiples of \<open>2 ^ (- 1074)\<close>. Every arithmetic operation returns the double nearest
  to the exact result, of two nearest ones the even multiple, and an infinity when
  that double would reach \<open>2 ^ 1024\<close>. Negative zero is not modelled.
\<close>

definition roundEven :: "real \<Rightarrow> int" where
  "roundEven x =
     (let f = \<lfloor>x\<rfloor>; r = x - of_int f
      in if r < 1 / 2 then f else if 1 / 2 < r then f + 1 else if even f then f else f + 1)"

definition binade :: "real \<Rightarrow> int" where
  "binade x = \<lfloor>log 2 \<bar>x\<bar>\<rfloor>"

definition ulp :: "real \<Rightarrow> real" where
  "ulp x = 2 powr of_int (max (binade x) (- 1022) - 52)"

definition nearest :: "real \<Rightarrow> real" where
  "nearest x = (if x = 0 then 0 else of_int (roundEven (x / ulp x)) * ulp x)"

fun round64 :: "jsnum \<Rightarrow> jsnum" where
  "round64 (Num x) =
     (if 2 ^ 1024 \<le> \<bar>nearest x\<bar> then (if 0 < x then PosInf else NegInf) else Num (nearest x))"
| "round64 PosInf = PosInf"
| "round64 NegInf = NegInf"
| "round64 NaN = NaN"

definition add64 :: "jsnum \<Rightarrow> jsnum \<Rightarrow> jsnum" where
  "add64 a b = round64 (js_add a b)"

definition sub64 :: "jsnum \<Rightarrow> jsnum \<Rightarrow> jsnum" where
  "sub64 a b = round64 (js_sub a b)"

definition mul64 :: "jsnum \<Rightarrow> jsnum \<Rightarrow> jsnum" where
  "mul64 a b = round64 (js_mul a b)"

definition div64 :: "jsnum \<Rightarrow> jsnum \<Rightarrow> jsnum" where
  "div64 a b = round64 (js_div a b)"

text \<open>
  The functions of \<^verbatim>\<open>Math\<close> return a double close to the exact value; they are taken
  to return the nearest one. What is proved below uses of them only that the logarithm
  of a number from 1 on is not negative. \<^verbatim>\<open>Math.PI\<close> is the double nearest to \<open>\<pi>\<close>,
  and a decimal literal of the code is the double nearest to it.
\<close>

definition pi64 :: real where
  "pi64 = nearest pi"

definition sin64 :: "jsnum \<Rightarrow> jsnum" where
  "sin64 a = round64 (js_sin a)"

definition cos64 :: "jsnum \<Rightarrow> jsnum" where
  "cos64 a = round64 (js_cos a)"

definition sqrt64 :: "jsnum \<Rightarrow> jsnum" where
  "sqrt64 a = round64 (js_sqrt a)"

definition atan2_64 :: "jsnum \<Rightarrow> jsnum \<Rightarrow> jsnum" where
  "atan2_64 y x = round64 (js_atan2 y x)"

definition log10_64 :: "jsnum \<Rightarrow> jsnum" where
  "log10_64 a = round64 (js_log10 a)"

definition getDistance64 :: "jsnum \<Rightarrow> jsnum \<Rightarrow> jsnum \<Rightarrow> jsnum \<Rightarrow> jsnum" where
  "getDistance64 lat1 lng1 lat2 lng2 =
     (let R = Num 6371000;
          phi1 = div64 (mul64 lat1 (Num pi64)) (Num 180);
          phi2 = div64 (mul64 lat2 (Num pi64)) (Num 180);
          dphi = div64 (mul64 (sub64 lat2 lat1) (Num pi64)) (Num 180);
          dlam = div64 (mul64 (sub64 lng2 lng1) (Num pi64)) (Num 180);
          a = add64 (mul64 (sin64 (div64 dphi (Num 2))) (sin64 (div64 dphi (Num 2))))
                (mul64 (mul64 (mul64 (cos64 phi1) (cos64 phi2))
                          (sin64 (div64 dlam (Num 2))))
                   (sin64 (div64 dlam (Num 2))));
          c = mul64 (Num 2) (atan2_64 (sqrt64 a) (sqrt64 (sub64 (Num 1) a)))
      in mul64 R c)"

text \<open>
  The recommended score as the doubles compute it: the blocks of the ranker, every sum,
  difference, product and quotient rounded. The code reads the clock once in the
  recency block and once more in the time-relevance block.
\<close>

definition categoryWeights64 :: "HappenCategory \<Rightarrow> jsnum" where
  "categoryWeights64 cat = round64 (categoryWeights cat)"

definition addPopularity64 :: "NormalizedItem \<Rightarrow> jsnum \<Rightarrow> jsnum" where
  "addPopularity64 item sofar =
     (case popularity item of
        Some p \<Rightarrow> if truthy p then add64 sofar (mul64 p (Num 30)) else sofar
      | None \<Rightarrow> sofar)"

definition addAttendance64 :: "NormalizedItem \<Rightarrow> jsnum \<Rightarrow> jsnum" where
  "addAttendance64 item sofar =
     (case attendeeCount item of
        Some n \<Rightarrow>
          if truthy n
          then add64 sofar (js_min (Num 10) (mul64 (log10_64 (add64 n (Num 1))) (Num 2)))
          else sofar
      | None \<Rightarrow> sofar)"

definition addRecency64 :: "clock \<Rightarrow> int \<Rightarrow> NormalizedItem \<Rightarrow> jsnum \<Rightarrow> jsnum" where
  "addRecency64 tm now item sofar =
     (case lastUpdated item of
        Some u \<Rightarrow>
          if u \<noteq> [] then
            (let hoursSinceUpdate =
                   div64 (sub64 (Num (real_of_int now)) (getTime tm u)) (Num (1000 * 60 * 60))
             in add64 sofar (js_max (Num 0) (sub64 (Num 20) (div64 hoursSinceUpdate (Num 24)))))
          else sofar
      | None \<Rightarrow> sofar)"

definition addProximity64 :: "(jsnum \<times> jsnum) option \<Rightarrow> NormalizedItem \<Rightarrow> jsnum \<Rightarrow> jsnum" where
  "addProximity64 c item sofar =
     (case (c, lat item, lng item) of
        (Some (c0, c1), Some la, Some lo) \<Rightarrow>
          if truthy la \<and> truthy lo then
            (let distance = getDistance64 c0 c1 la lo
             in add64 sofar (js_max (Num 0) (sub64 (Num 20) (div64 distance (Num 1000)))))
          else sofar
      | _ \<Rightarrow> sofar)"

definition addCompleteness64 :: "NormalizedItem \<Rightarrow> jsnum \<Rightarrow> jsnum" where
  "addCompleteness64 item sofar =
     (let sofar = (if truthyS (description item) then add64 sofar (Num 3) else sofar);
          sofar = (if truthyS (imageUrl item) then add64 sofar (Num 3) else sofar);
          sofar = (if truthyS (venueName item) then add64 sofar (Num 3) else sofar);
          sofar = (if truthyS (address item) then add64 sofar (Num 3) else sofar)
      in if priceMin item \<noteq> None then add64 sofar (Num 3) else sofar)"

definition addCategoryBoost64 :: "NormalizedItem \<Rightarrow> jsnum \<Rightarrow> jsnum" where
  "addCategoryBoost64 item sofar =
     (let categoryBoost =
            foldl (\<lambda>acc cat. add64 acc (orElse (categoryWeights64 cat) (Num 1))) (Num 0)
              (category item)
      in add64 sofar (js_min (Num 10) (mul64 categoryBoost (Num 2))))"

definition addTimeRelevance64 :: "clock \<Rightarrow> int \<Rightarrow> NormalizedItem \<Rightarrow> jsnum \<Rightarrow> jsnum" where
  "addTimeRelevance64 tm now item sofar =
     (case startTime item of
        Some s \<Rightarrow>
          if s \<noteq> [] then
            (let daysUntil =
                   div64 (sub64 (getTime tm s) (Num (real_of_int now)))
                     (Num (1000 * 60 * 60 * 24))
             in if js_lt daysUntil (Num 1) then add64 sofar (Num 5)
                else if js_lt daysUntil (Num 3) then add64 sofar (Num 3)
                else if js_lt daysUntil (Num 7) then add64 sofar (Num 1)
                else sofar)
          else sofar
      | None \<Rightarrow> sofar)"

definition recommendedScore64 ::
  "clock \<Rightarrow> int \<Rightarrow> int \<Rightarrow> (jsnum \<times> jsnum) option \<Rightarrow> NormalizedItem \<Rightarrow> jsnum" where
  "recommendedScore64 tm nowRecency nowTime c item =
     (let score = Num 0;
          score = addPopularity64 item score;
          score = addAttendance64 item score;
          score = addRecency64 tm nowRecency item score;
          score = addProximity64 c item score;
          score = addCompleteness64 item score;
          score = addCategoryBoost64 item score
      in addTimeRelevance64 tm nowTime item score)"

text \<open>
  Two running sums of which the second is not below the first, or one of which is NaN;
  and a term that lowers no sum.
\<close>

definition tracks :: "jsnum \<Rightarrow> jsnum \<Rightarrow> bool" where
  "tracks a b = (a = NaN \<or> b = NaN \<or> js_le a b)"

definition atLeastZero :: "jsnum \<Rightarrow> bool" where
  "atLeastZero t = (t = NaN \<or> js_le (Num 0) t)"

section \<open>Provider fetch orchestrator\<close>

text \<open>
  The outcome of one provider's \<^verbatim>\<open>fetchItems\<close>, as \<^verbatim>\<open>Promise.allSettled\<close>
  reports it, beside the provider's name; the console is the list of lines written.
\<close>

datatype settled = Fulfilled "ProviderItem list" | Rejected string

datatype logLine = ItemCount string nat | Failed string string

fun collectOne :: "string \<times> settled \<Rightarrow> ProviderItem list \<times> logLine list" where
  "collectOne (name, Fulfilled v) = (v, [ItemCount name (length v)])"
| "collectOne (name, Rejected reason) = ([], [Failed name reason])"

definition collectItems :: "(string \<times> settled) list \<Rightarrow> ProviderItem list \<times> logLine list" where
  "collectItems results =
     (concat (map (fst \<circ> collectOne) results), concat (map (snd \<circ> collectOne) results))"

definition withFallback :: "ProviderItem list \<Rightarrow> ProviderItem list \<Rightarrow> ProviderItem list" where
  "withFallback mockItems allItems =
     (if length allItems = 0 then allItems @ mockItems else allItems)"

section \<open>The deduplicator as the specification words it\<close>

text \<open>
  Two items are near-duplicates by three signals: the similarity of their normalized
  titles, the proximity of their start times (both have one, less than 30 minutes
  apart) and the proximity of their places (both carry coordinates, less than 200
  meters apart).
\<close>

definition titleSimilarity :: "NormalizedItem \<Rightarrow> NormalizedItem \<Rightarrow> real" where
  "titleSimilarity a b = stringSimilarity (normalizedTitle a) (normalizedTitle b)"

definition timeProximate :: "clock \<Rightarrow> NormalizedItem \<Rightarrow> NormalizedItem \<Rightarrow> bool" where
  "timeProximate tm a b =
     (truthyS (startTime a) \<and> truthyS (startTime b) \<and>
      (case (startTime a, startTime b) of
         (Some s, Some t) \<Rightarrow>
           js_lt (js_abs (js_sub (getTime tm s) (getTime tm t))) (Num 1800000)
       | _ \<Rightarrow> False))"

definition locationProximate :: "NormalizedItem \<Rightarrow> NormalizedItem \<Rightarrow> bool" where
  "locationProximate a b =
     (case (lat a, lng a, lat b, lng b) of
        (Some la, Some lo, Some la', Some lo') \<Rightarrow> js_lt (getDistance la lo la' lo') (Num 200)
      | _ \<Rightarrow> False)"

definition duplicates :: "clock \<Rightarrow> NormalizedItem \<Rightarrow> NormalizedItem \<Rightarrow> bool" where
  "duplicates tm a b =
     ((titleSimilarity a b > 0.9 \<and> timeProximate tm a b) \<or>
      (titleSimilarity a b > 0.8 \<and> locationProximate a b \<and> timeProximate tm a b))"

text \<open>The popularity of an item, an item without one counting as popularity zero.\<close>

definition popularityOf :: "NormalizedItem \<Rightarrow> jsnum" where
  "popularityOf a = (case popularity a of Some p \<Rightarrow> p | None \<Rightarrow> Num 0)"

definition improves :: "NormalizedItem \<Rightarrow> NormalizedItem \<Rightarrow> bool" where
  "improves incoming rep =
     ((\<not> truthyS (description rep) \<and> truthyS (description incoming)) \<or>
      (\<not> truthyS (imageUrl rep) \<and> truthyS (imageUrl incoming)) \<or>
      js_gt (popularityOf incoming) (popularityOf rep))"

text \<open>
  The replacement policy with its third case read to the letter: the incoming item's
  popularity exceeds the representative's, or the representative has none.
\<close>

definition improvesToTheLetter :: "NormalizedItem \<Rightarrow> NormalizedItem \<Rightarrow> bool" where
  "improvesToTheLetter incoming rep =
     ((\<not> truthyS (description rep) \<and> truthyS (description incoming)) \<or>
      (\<not> truthyS (imageUrl rep) \<and> truthyS (imageUrl incoming)) \<or>
      (case popularity rep of
         None \<Rightarrow> True
       | Some q \<Rightarrow> (case popularity incoming of Some p \<Rightarrow> js_gt p q | None \<Rightarrow> False)))"

text \<open>
  The incoming item meets the representatives in order; the first duplicate ends the
  scan, and is replaced by the incoming item under its own identifier when that
  improves it. An item without a duplicate becomes the last representative.
\<close>

fun absorb :: "clock \<Rightarrow> NormalizedItem \<Rightarrow> NormalizedItem list \<Rightarrow> NormalizedItem list" where
  "absorb tm incoming [] = [incoming]"
| "absorb tm incoming (rep # reps) =
     (if duplicates tm incoming rep
      then (if improves incoming rep then incoming\<lparr>id' := id' rep\<rparr> else rep) # reps
      else rep # absorb tm incoming reps)"

definition dedupeSpec :: "clock \<Rightarrow> NormalizedItem list \<Rightarrow> NormalizedItem list" where
  "dedupeSpec tm items = foldl (\<lambda>reps incoming. absorb tm incoming reps) [] items"

text \<open>
  The inputs on which the deduplicator is compared with its specification: a
  coordinate that is present is not zero, and a popularity that is present is a number
  that is not negative.
\<close>

definition offAxis :: "jsnum option \<Rightarrow> bool" where
  "offAxis c = (c \<noteq> Some (Num 0))"

definition nonNegative :: "jsnum option \<Rightarrow> bool" where
  "nonNegative c = (case c of None \<Rightarrow> True | Some p \<Rightarrow> js_le (Num 0) p)"

definition comparable :: "NormalizedItem \<Rightarrow> bool" where
  "comparable a = (offAxis (lat a) \<and> offAxis (lng a) \<and> nonNegative (popularity a))"

section \<open>The times of an item\<close>

text \<open>
  The time that a date field holds: none when the field is absent or empty, and else
  the reading of its text (NaN when the text is no date).
\<close>

definition timeOf :: "clock \<Rightarrow> string option \<Rightarrow> jsnum option" where
  "timeOf tm d = (case d of None \<Rightarrow> None | Some s \<Rightarrow> if s = [] then None else Some (getTime tm s))"

section \<open>Worked examples\<close>

text \<open>
  A reading of the dates of the form \<^verbatim>\<open>YYYY-MM-DDTHH:MM:SSZ\<close>, with which the examples
  of the specification are evaluated.
\<close>

definition digitVal :: "char \<Rightarrow> int option" where
  "digitVal c =
     (let n = (of_char c :: nat) in if 48 \<le> n \<and> n \<le> 57 then Some (int n - 48) else None)"

fun digits :: "int \<Rightarrow> string \<Rightarrow> int option" where
  "digits acc [] = Some acc"
| "digits acc (c # cs) =
     (case digitVal c of None \<Rightarrow> None | Some d \<Rightarrow> digits (10 * acc + d) cs)"

definition isLeap :: "int \<Rightarrow> bool" where
  "isLeap y = ((y mod 4 = 0 \<and> y mod 100 \<noteq> 0) \<or> y mod 400 = 0)"

definition daysInMonth :: "int \<Rightarrow> int \<Rightarrow> int" where
  "daysInMonth y m =
     (if m = 2 then (if isLeap y then 29 else 28)
      else if m = 4 \<or> m = 6 \<or> m = 9 \<or> m = 11 then 30 else 31)"

definition daysFromCivil :: "int \<Rightarrow> int \<Rightarrow> int \<Rightarrow> int" where
  "daysFromCivil y m d =
     (let y' = (if m \<le> 2 then y - 1 else y);
          era = y' div 400;
          yoe = y' - era * 400;
          doy = (153 * (if m > 2 then m - 3 else m + 9) + 2) div 5 + d - 1;
          doe = yoe * 365 + yoe div 4 - yoe div 100 + doy
      in era * 146097 + doe - 719468)"

definition parseUTC :: clock where
  "parseUTC s =
     (if length s = 20 \<and> s ! 4 = CHR ''-'' \<and> s ! 7 = CHR ''-'' \<and> s ! 10 = CHR ''T'' \<and>
         s ! 13 = CHR '':'' \<and> s ! 16 = CHR '':'' \<and> s ! 19 = CHR ''Z''
      then (case (digits 0 (take 4 s), digits 0 (take 2 (drop 5 s)),
                  digits 0 (take 2 (drop 8 s)), digits 0 (take 2 (drop 11 s)),
                  digits 0 (take 2 (drop 14 s)), digits 0 (take 2 (drop 17 s))) of
              (Some y, Some m, Some d, Some h, Some mi, Some sec) \<Rightarrow>
                if 1 \<le> m \<and> m \<le> 12 \<and> 1 \<le> d \<and> d \<le> daysInMonth y m \<and>
                   h \<le> 23 \<and> mi \<le> 59 \<and> sec \<le> 59
                then Some ((((daysFromCivil y m d * 24 + h) * 60 + mi) * 60 + sec) * 1000)
                else None
            | _ \<Rightarrow> None)
      else None)"

definition exampleRaw :: ProviderItem where
  "exampleRaw =
     \<lparr>externalId = ''1'', source = ''eventbrite'', title = ''Jazz Night'',
      description = None, category = [Event], startTime = None, endTime = None,
      timezone = None, venueName = None, address = None, city = None, lat = None,
      lng = None, priceMin = None, priceMax = None, currency = None,
      url = ''https://example.com/jazz'', imageUrl = None, tags = None,
      isFamilyFriendly = None, isIndoor = None, language = None, lastUpdated = None,
      popularity = None, attendeeCount = None\<rparr>"

definition jazzA :: ProviderItem where
  "jazzA = exampleRaw\<lparr>startTime := Some ''2025-06-10T10:00:00Z'',
                        lat := Some (Num 40), lng := Some (Num (- 73))\<rparr>"

definition jazzB :: ProviderItem where
  "jazzB = exampleRaw\<lparr>externalId := ''2'', source := ''meetup'', title := ''jazz night!!'',
                        description := Some ''live music'',
                        startTime := Some ''2025-06-10T10:10:00Z'',
                        lat := Some (Num 40.0005), lng := Some (Num (- 73.0004))\<rparr>"

definition exampleItem :: NormalizedItem where
  "exampleItem =
     \<lparr>externalId = ''1'', source = ''eventbrite'', title = ''Jazz Night'',
      description = None, category = [Event], startTime = None, endTime = None,
      timezone = Some ''UTC'', venueName = None, address = None, city = None, lat = None,
      lng = None, priceMin = None, priceMax = None, currency = None,
      url = ''https://example.com/jazz'', imageUrl = None, tags = None,
      isFamilyFriendly = None, isIndoor = None, language = None,
      lastUpdated = Some ''2025-06-01T00:00:00Z'', popularity = None, attendeeCount = None,
      id' = ''5f2b9c1d4e7a8b30'', normalizedTitle = ''jazz night'', score = None\<rparr>"

text \<open>A toy digest and a zone conversion that always fails, to run the normalizer on.\<close>

definition toyDigest :: "string \<Rightarrow> string" where
  "toyDigest s = rev s @ ''0000000000000000''"

definition noZone :: "string \<Rightarrow> string \<Rightarrow> string \<Rightarrow> string option" where
  "noZone from to s = None"

section \<open>Properties\<close>

subsection \<open>Readings of the example dates and titles\<close>

lemma parse_examples:
  "parseUTC ''2025-06-10T10:00:00Z'' = Some 1749549600000"
  "parseUTC ''2025-06-10T00:00:00Z'' = Some 1749513600000"
  "parseUTC ''2025-06-10T23:59:59Z'' = Some 1749599999000"
  "parseUTC ''2025-06-11T00:00:00Z'' = Some 1749600000000"
  "parseUTC ''2025-06-12T00:00:00Z'' = Some 1749686400000"
  "parseUTC ''2025-06-10T10:10:00Z'' = Some 1749550200000"
  "parseUTC ''2025-06-10T09:00:00Z'' = Some 1749546000000"
  "parseUTC ''2025-06-10T11:00:00Z'' = Some 1749553200000"
  "parseUTC ''2025-06-01T00:00:00Z'' = Some 1748736000000"
  by code_simp+

lemma normalizeTitle_examples:
  "normalizeTitle ''Jazz Night'' = ''jazz night''"
  "normalizeTitle ''jazz night!!'' = ''jazz night''"
  by code_simp+

lemma similarity_same: "stringSimilarity s s = 1"
  by (simp add: stringSimilarity_def)

lemma similarity_example: "stringSimilarity ''jazz nigh7'' ''jazz night'' = 9 / 10"
  by code_simp

subsection \<open>Numbers\<close>

lemma js_add_NaN: "js_add x NaN = NaN" "js_add NaN x = NaN"
  by (cases x; simp)+

lemma js_mul_NaN: "js_mul x NaN = NaN" "js_mul NaN x = NaN"
  by (cases x; simp)+

lemma js_div_NaN: "js_div x NaN = NaN" "js_div NaN x = NaN"
  by (cases x; simp)+

lemma js_sub_NaN: "js_sub x NaN = NaN" "js_sub NaN x = NaN"
  by (simp_all add: js_sub_def js_add_NaN)

lemma js_atan2_NaN: "js_atan2 x NaN = NaN" "js_atan2 NaN x = NaN"
  by (cases x; simp)+

lemma truthy_iff: "truthy v = (v \<noteq> Num 0 \<and> v \<noteq> NaN)"
  by (cases v) auto

lemma js_ge_Num: "js_ge (Num a) (Num b) = (b \<le> a)"
  by (auto simp: js_ge_def js_le_def)

lemma js_ge_PosInf: "js_ge PosInf (Num b)" "js_ge PosInf PosInf"
  by (simp_all add: js_ge_def js_le_def)

lemma js_ge_iff_not_lt: "a \<noteq> NaN \<Longrightarrow> b \<noteq> NaN \<Longrightarrow> js_ge a b = (\<not> js_lt a b)"
  by (cases a; cases b) (auto simp: js_ge_def js_le_def)

lemma js_ge_trans: "js_ge a b \<Longrightarrow> js_ge b c \<Longrightarrow> js_ge a c"
  by (cases a; cases b; cases c) (auto simp: js_ge_def js_le_def)

lemma js_lt_imp_ge: "js_lt a b \<Longrightarrow> js_ge b a"
  by (cases a; cases b) (auto simp: js_ge_def js_le_def)

lemma js_lt_irrefl: "\<not> js_lt a a"
  by (cases a) auto

lemma sub_positive: "a \<noteq> NaN \<Longrightarrow> b \<noteq> NaN \<Longrightarrow> js_gt (js_sub b a) (Num 0) = js_lt a b"
  by (cases a; cases b) (auto simp: js_gt_def js_sub_def)

lemma inverse_order:
  fixes x y :: real
  assumes "x \<le> y" "0 < x \<or> y < 0"
  shows "1 / y \<le> 1 / x"
  using assms by (auto simp: field_simps intro: divide_left_mono divide_left_mono_neg)

subsection \<open>Geo utility\<close>

lemma getDistance_NaN:
  "getDistance NaN b c d = NaN" "getDistance a NaN c d = NaN"
  "getDistance a b NaN d = NaN" "getDistance a b c NaN = NaN"
  by (simp_all add: getDistance_def js_add_NaN js_mul_NaN js_div_NaN js_sub_NaN js_atan2_NaN)

lemma getDistance_same_point: "getDistance (Num 0) (Num 10) (Num 0) (Num 10) = Num 0"
  by (simp add: getDistance_def js_sub_def atan2_def)

subsection \<open>Item normalizer\<close>

text \<open>
  C5. The identifier that the normalizer gives an item is the first 16 characters of
  the digest of \<open>source:externalId\<close>. It depends on the source and the external
  identifier only: two raw items that agree on both get the same identifier, whatever
  their other fields, the target timezone and the time of the normalization; so does
  the same list normalized twice.
\<close>

theorem identifier_of_source_and_externalId:
  "id' (normalizeItem sha256hex reZone nowISO tz item) =
     take 16 (sha256hex (source item @ '':'' @ externalId item)) \<and>
   (source a = source b \<and> externalId a = externalId b \<longrightarrow>
      id' (normalizeItem sha256hex reZone nowISO tz a) =
      id' (normalizeItem sha256hex reZone' nowISO' tz' b)) \<and>
   map id' (normalizeItems sha256hex reZone nowISO items tz filterCategories) =
     map (\<lambda>item. take 16 (sha256hex (source item @ '':'' @ externalId item)))
       (filter (passesFilter filterCategories) items) \<and>
   map id' (normalizeItems sha256hex reZone nowISO items tz filterCategories) =
     map id' (normalizeItems sha256hex reZone' nowISO' items tz' filterCategories)"
  by (simp add: normalizeItems_def normalizeItem_def ProviderItem.extend_def
        NormalizedItem.fields_def)

theorem identifier_of_source_and_externalId_witness:
  "id' (normalizeItem toyDigest noZone ''2025-06-01T00:00:00Z'' ''UTC'' jazzA) =
     ''1:etirbtneve0000'' \<and>
   id' (normalizeItem toyDigest noZone ''2025-06-01T00:00:00Z'' ''UTC'' jazzA) =
   id' (normalizeItem toyDigest noZone ''2026-01-01T00:00:00Z'' ''Europe/Paris''
          (jazzA\<lparr>title := ''Blues Night'', timezone := Some ''UTC'',
                  popularity := Some (Num 0.5)\<rparr>))"
proof -
  let ?b = "jazzA\<lparr>title := ''Blues Night'', timezone := Some ''UTC'',
                  popularity := Some (Num 0.5)\<rparr>"
  note inst = identifier_of_source_and_externalId [of toyDigest noZone
      "''2025-06-01T00:00:00Z''" "''UTC''" jazzA jazzA ?b noZone "''2026-01-01T00:00:00Z''"
      "''Europe/Paris''"]
  have same: "source jazzA = source ?b \<and> externalId jazzA = externalId ?b"
    by simp
  from inst have first:
    "id' (normalizeItem toyDigest noZone ''2025-06-01T00:00:00Z'' ''UTC'' jazzA) =
       take 16 (toyDigest (source jazzA @ '':'' @ externalId jazzA))"
    by (rule conjunct1)
  from inst same have second:
    "id' (normalizeItem toyDigest noZone ''2025-06-01T00:00:00Z'' ''UTC'' jazzA) =
     id' (normalizeItem toyDigest noZone ''2026-01-01T00:00:00Z'' ''Europe/Paris'' ?b)"
    by blast
  have digest: "take 16 (toyDigest (source jazzA @ '':'' @ externalId jazzA)) = ''1:etirbtneve0000''"
    by (simp add: jazzA_def exampleRaw_def toyDigest_def)
  show ?thesis
    using first second digest by simp
qed

text \<open>
  C6, as amended. An item survives the category filter of the normalizer exactly when
  no filter is given, or the filter is the empty list, or one of the item's categories
  is in the filter; the survivors keep their order, and the identifiers of the
  filtered output are among those of the unfiltered output.
\<close>

theorem category_filter:
  "normalizeItems sha256hex reZone nowISO items tz filterCategories =
     map (normalizeItem sha256hex reZone nowISO tz)
       (filter (\<lambda>item. filterCategories = None \<or> filterCategories = Some [] \<or>
                  (\<exists>cats. filterCategories = Some cats \<and>
                          set (category item) \<inter> set cats \<noteq> {}))
          items) \<and>
   set (map id' (normalizeItems sha256hex reZone nowISO items tz filterCategories)) \<subseteq>
     set (map id' (normalizeItems sha256hex reZone nowISO items tz None))"
proof
  have "passesFilter filterCategories =
      (\<lambda>item. filterCategories = None \<or> filterCategories = Some [] \<or>
         (\<exists>cats. filterCategories = Some cats \<and> set (category item) \<inter> set cats \<noteq> {}))"
    by (auto simp: passesFilter_def list_ex_iff fun_eq_iff split: option.splits)
  then show "normalizeItems sha256hex reZone nowISO items tz filterCategories =
     map (normalizeItem sha256hex reZone nowISO tz)
       (filter (\<lambda>item. filterCategories = None \<or> filterCategories = Some [] \<or>
                  (\<exists>cats. filterCategories = Some cats \<and>
                          set (category item) \<inter> set cats \<noteq> {}))
          items)"
    by (simp add: normalizeItems_def)
next
  show "set (map id' (normalizeItems sha256hex reZone nowISO items tz filterCategories)) \<subseteq>
     set (map id' (normalizeItems sha256hex reZone nowISO items tz None))"
    by (auto simp: normalizeItems_def passesFilter_def)
qed

theorem category_filter_witness:
  "normalizeItems toyDigest noZone ''2025-06-01T00:00:00Z''
      [jazzA, jazzB\<lparr>category := [Tour]\<rparr>] ''UTC'' (Some [Event, Seminar]) =
     [normalizeItem toyDigest noZone ''2025-06-01T00:00:00Z'' ''UTC'' jazzA] \<and>
   normalizeItems toyDigest noZone ''2025-06-01T00:00:00Z''
      [jazzA, jazzB\<lparr>category := [Tour]\<rparr>] ''UTC'' (Some []) =
     [normalizeItem toyDigest noZone ''2025-06-01T00:00:00Z'' ''UTC'' jazzA,
      normalizeItem toyDigest noZone ''2025-06-01T00:00:00Z'' ''UTC''
        (jazzB\<lparr>category := [Tour]\<rparr>)]"
  using category_filter [of toyDigest noZone "''2025-06-01T00:00:00Z''"
      "[jazzA, jazzB\<lparr>category := [Tour]\<rparr>]" "''UTC''" "Some [Event, Seminar]"]
    category_filter [of toyDigest noZone "''2025-06-01T00:00:00Z''"
      "[jazzA, jazzB\<lparr>category := [Tour]\<rparr>]" "''UTC''" "Some []"]
  by (simp add: jazzA_def jazzB_def exampleRaw_def)

text \<open>
  The filter that is given and empty: no category of the item is in it, and the item
  survives.
\<close>

theorem empty_filter_counterexample:
  "normalizeItems toyDigest noZone ''2025-06-01T00:00:00Z'' [jazzA] ''UTC'' (Some []) \<noteq> [] \<and>
   Some [] \<noteq> (None :: HappenCategory list option) \<and>
   set (category jazzA) \<inter> set [] = {}"
  by (simp add: normalizeItems_def passesFilter_def)

subsection \<open>Date-range filter\<close>

lemma inDateRange_iff:
  "inDateRange tm startISO endISO item =
     (case timeOf tm (startTime item) of
        None \<Rightarrow> Attraction \<in> set (category item)
      | Some itemStart \<Rightarrow>
          js_le itemStart (getTime tm endISO) \<and>
          js_ge (case timeOf tm (endTime item) of None \<Rightarrow> itemStart | Some itemEnd \<Rightarrow> itemEnd)
            (getTime tm startISO))"
  by (auto simp: inDateRange_def timeOf_def Let_def split: option.splits)

text \<open>
  C3. For every list of items and every window, \<open>filterByDateRange\<close> keeps, in their
  order, exactly the items that either have no start time and are tagged as an
  attraction, or have a start time with start \<open>\<le>\<close> window end and end \<open>\<ge>\<close> window
  start, the end being the start when the item has no end time. An item starting at
  2025-06-10T10:00:00Z, without end time, of category event, is kept for the window
  of 10 June and dropped for the window from 11 to 12 June; an attraction without
  start time is kept under every window.
\<close>

theorem date_range_filter:
  "filterByDateRange tm items startISO endISO =
     filter (\<lambda>item. case timeOf tm (startTime item) of
                      None \<Rightarrow> Attraction \<in> set (category item)
                    | Some itemStart \<Rightarrow>
                        js_le itemStart (getTime tm endISO) \<and>
                        js_ge (case timeOf tm (endTime item) of
                                 None \<Rightarrow> itemStart | Some itemEnd \<Rightarrow> itemEnd)
                          (getTime tm startISO)) items \<and>
   filterByDateRange parseUTC [exampleItem\<lparr>startTime := Some ''2025-06-10T10:00:00Z''\<rparr>]
     ''2025-06-10T00:00:00Z'' ''2025-06-10T23:59:59Z'' =
     [exampleItem\<lparr>startTime := Some ''2025-06-10T10:00:00Z''\<rparr>] \<and>
   filterByDateRange parseUTC [exampleItem\<lparr>startTime := Some ''2025-06-10T10:00:00Z''\<rparr>]
     ''2025-06-11T00:00:00Z'' ''2025-06-12T00:00:00Z'' = [] \<and>
   filterByDateRange tm [exampleItem\<lparr>category := [Attraction]\<rparr>] startISO endISO =
     [exampleItem\<lparr>category := [Attraction]\<rparr>]"
proof (intro conjI)
  show "filterByDateRange tm items startISO endISO =
     filter (\<lambda>item. case timeOf tm (startTime item) of
                      None \<Rightarrow> Attraction \<in> set (category item)
                    | Some itemStart \<Rightarrow>
                        js_le itemStart (getTime tm endISO) \<and>
                        js_ge (case timeOf tm (endTime item) of
                                 None \<Rightarrow> itemStart | Some itemEnd \<Rightarrow> itemEnd)
                          (getTime tm startISO)) items"
    unfolding filterByDateRange_def by (rule filter_cong) (simp_all add: inDateRange_iff)
next
  show "filterByDateRange parseUTC [exampleItem\<lparr>startTime := Some ''2025-06-10T10:00:00Z''\<rparr>]
     ''2025-06-10T00:00:00Z'' ''2025-06-10T23:59:59Z'' =
     [exampleItem\<lparr>startTime := Some ''2025-06-10T10:00:00Z''\<rparr>]"
    by (simp add: filterByDateRange_def inDateRange_iff timeOf_def getTime_def parse_examples
          exampleItem_def js_le_def js_ge_def)
next
  show "filterByDateRange parseUTC [exampleItem\<lparr>startTime := Some ''2025-06-10T10:00:00Z''\<rparr>]
     ''2025-06-11T00:00:00Z'' ''2025-06-12T00:00:00Z'' = []"
    by (simp add: filterByDateRange_def inDateRange_iff timeOf_def getTime_def parse_examples
          exampleItem_def js_le_def js_ge_def)
next
  show "filterByDateRange tm [exampleItem\<lparr>category := [Attraction]\<rparr>] startISO endISO =
     [exampleItem\<lparr>category := [Attraction]\<rparr>]"
    by (simp add: filterByDateRange_def inDateRange_iff timeOf_def exampleItem_def)
qed

theorem date_range_filter_witness:
  "filterByDateRange parseUTC
     [exampleItem\<lparr>startTime := Some ''2025-06-10T10:00:00Z''\<rparr>, exampleItem,
      exampleItem\<lparr>category := [Attraction]\<rparr>,
      exampleItem\<lparr>startTime := Some ''2025-06-10T09:00:00Z'',
                    endTime := Some ''2025-06-10T11:00:00Z''\<rparr>]
     ''2025-06-10T10:10:00Z'' ''2025-06-10T23:59:59Z'' =
     [exampleItem\<lparr>category := [Attraction]\<rparr>,
      exampleItem\<lparr>startTime := Some ''2025-06-10T09:00:00Z'',
                    endTime := Some ''2025-06-10T11:00:00Z''\<rparr>]"
  using date_range_filter [of parseUTC
     "[exampleItem\<lparr>startTime := Some ''2025-06-10T10:00:00Z''\<rparr>, exampleItem,
      exampleItem\<lparr>category := [Attraction]\<rparr>,
      exampleItem\<lparr>startTime := Some ''2025-06-10T09:00:00Z'',
                    endTime := Some ''2025-06-10T11:00:00Z''\<rparr>]"
     "''2025-06-10T10:10:00Z''" "''2025-06-10T23:59:59Z''"]
  by (simp add: timeOf_def getTime_def parse_examples exampleItem_def js_le_def js_ge_def)

subsection \<open>Deduplicator\<close>

lemma isDuplicateOf_duplicates:
  assumes "comparable a" and "comparable b"
  shows "isDuplicateOf tm a b = duplicates tm a b"
proof -
  have t: "(case (startTime a, startTime b) of
               (Some s1, Some s2) \<Rightarrow>
                 if s1 \<noteq> [] \<and> s2 \<noteq> []
                 then js_lt (js_abs (js_sub (getTime tm s1) (getTime tm s2))) (Num (30 * 60 * 1000))
                 else False
             | _ \<Rightarrow> False) = timeProximate tm a b"
    by (auto simp: timeProximate_def split: option.splits)
  have l: "(case (lat a, lng a, lat b, lng b) of
               (Some la1, Some lo1, Some la2, Some lo2) \<Rightarrow>
                 if truthy la1 \<and> truthy lo1 \<and> truthy la2 \<and> truthy lo2
                 then js_lt (getDistance la1 lo1 la2 lo2) (Num 200)
                 else False
             | _ \<Rightarrow> False) = locationProximate a b"
    using assms
    by (auto simp: locationProximate_def comparable_def offAxis_def truthy_iff getDistance_NaN
          split: option.splits)
  show ?thesis
    unfolding isDuplicateOf_def Let_def t l by (simp add: duplicates_def titleSimilarity_def)
qed

lemma nonNegative_cases:
  "nonNegative (Some p) \<Longrightarrow> (\<exists>x. p = Num x \<and> 0 \<le> x) \<or> p = PosInf"
  by (cases p) (auto simp: nonNegative_def js_le_def)

lemma hasMoreInfo_improves:
  assumes "comparable a" and "comparable b"
  shows "hasMoreInfo a b = improves a b"
proof -
  have pa: "nonNegative (popularity a)" and pb: "nonNegative (popularity b)"
    using assms by (simp_all add: comparable_def)
  have "(case popularity a of
         None \<Rightarrow> False
       | Some p \<Rightarrow> truthy p \<and> (case popularity b of None \<Rightarrow> True | Some q \<Rightarrow> \<not> truthy q \<or> js_gt p q)) =
        js_gt (popularityOf a) (popularityOf b)"
  proof (cases "popularity a")
    case None
    show ?thesis
    proof (cases "popularity b")
      case None
      with \<open>popularity a = None\<close> show ?thesis by (simp add: popularityOf_def js_gt_def)
    next
      case (Some q)
      with pb nonNegative_cases have "(\<exists>y. q = Num y \<and> 0 \<le> y) \<or> q = PosInf" by metis
      with Some \<open>popularity a = None\<close> show ?thesis
        by (auto simp: popularityOf_def js_gt_def)
    qed
  next
    case (Some p)
    with pa nonNegative_cases have p: "(\<exists>x. p = Num x \<and> 0 \<le> x) \<or> p = PosInf" by metis
    show ?thesis
    proof (cases "popularity b")
      case None
      with Some p show ?thesis by (auto simp: popularityOf_def js_gt_def)
    next
      case q: (Some q)
      with pb nonNegative_cases have "(\<exists>y. q = Num y \<and> 0 \<le> y) \<or> q = PosInf" by metis
      with Some q p show ?thesis by (auto simp: popularityOf_def js_gt_def)
    qed
  qed
  then show ?thesis
    by (simp add: hasMoreInfo_def improves_def)
qed

lemma indexOf_first:
  "indexOf xs x = Some i \<Longrightarrow> i < length xs \<and> xs ! i = x \<and> (\<forall>j<i. xs ! j \<noteq> x)"
proof (induction xs arbitrary: i)
  case Nil
  then show ?case by simp
next
  case (Cons y ys)
  show ?case
  proof (cases "y = x")
    case True
    with Cons.prems show ?thesis by simp
  next
    case False
    with Cons.prems obtain i' where i': "indexOf ys x = Some i'" "i = Suc i'"
      by auto
    from Cons.IH [OF i'(1)] False i'(2) show ?thesis
      by (auto simp: nth_Cons split: nat.splits)
  qed
qed

lemma indexOf_found: "x \<in> set xs \<Longrightarrow> indexOf xs x \<noteq> None"
  by (induction xs) auto

lemma indexOf_at_first_match:
  assumes "k < length us" and "P (us ! k)" and "\<forall>j<k. \<not> P (us ! j)"
  shows "indexOf us (us ! k) = Some k"
proof -
  from assms(1) have "us ! k \<in> set us" by simp
  then obtain i where i: "indexOf us (us ! k) = Some i"
    using indexOf_found by fastforce
  from indexOf_first [OF i] have f: "i < length us" "us ! i = us ! k" "\<forall>j<i. us ! j \<noteq> us ! k"
    by simp_all
  have "\<not> i < k" using assms(2,3) f(2) by metis
  moreover have "\<not> k < i" using f(3) by blast
  ultimately show ?thesis using i by simp
qed

lemma comparable_id: "comparable (a\<lparr>id' := x\<rparr>) = comparable a"
  by (simp add: comparable_def)

lemma scan_absorb:
  assumes "comparable item" and "\<forall>u \<in> set us. comparable u"
    and "k \<le> length us" and "\<forall>j<k. \<not> duplicates tm item (us ! j)"
  shows "(case scanUnique tm item us k of
            (isDuplicate, us') \<Rightarrow> if \<not> isDuplicate then us' @ [item] else us') =
         take k us @ absorb tm item (drop k us)"
  using assms(3,4)
proof (induction "length us - k" arbitrary: k)
  case 0
  then have "k = length us" by simp
  then show ?case by (simp add: scanUnique.simps)
next
  case (Suc n)
  then have k: "k < length us" by simp
  let ?u = "us ! k"
  have cu: "comparable ?u" using assms(2) k by simp
  have dup: "isDuplicateOf tm item ?u = duplicates tm item ?u"
    using assms(1) cu by (rule isDuplicateOf_duplicates)
  have more: "hasMoreInfo item ?u = improves item ?u"
    using assms(1) cu by (rule hasMoreInfo_improves)
  have dr: "drop k us = ?u # drop (Suc k) us"
    using k by (simp add: Cons_nth_drop_Suc)
  show ?case
  proof (cases "duplicates tm item ?u")
    case True
    have ix: "indexOf us ?u = Some k"
      using k True Suc.prems(2) by (rule indexOf_at_first_match [where P = "duplicates tm item"])
    have upd: "us[k := x] = take k us @ x # drop (Suc k) us" for x
      using k by (rule upd_conv_take_nth_drop)
    have same: "take k us @ ?u # drop (Suc k) us = us"
      using k by (simp add: id_take_nth_drop [symmetric])
    show ?thesis
      using k True by (subst scanUnique.simps) (simp add: dup more ix upd dr same Let_def)
  next
    case False
    have n: "n = length us - Suc k" using Suc.hyps(2) by simp
    have le: "Suc k \<le> length us" using k by simp
    have nd: "\<forall>j<Suc k. \<not> duplicates tm item (us ! j)"
      using Suc.prems(2) False by (simp add: less_Suc_eq)
    have ih: "(case scanUnique tm item us (Suc k) of
            (isDuplicate, us') \<Rightarrow> if \<not> isDuplicate then us' @ [item] else us') =
         take (Suc k) us @ absorb tm item (drop (Suc k) us)"
      using n le nd by (rule Suc.hyps(1))
    have "scanUnique tm item us k = scanUnique tm item us (Suc k)"
      using k False by (subst scanUnique.simps) (simp add: dup Let_def)
    then show ?thesis
      using ih k False by (simp add: dr take_Suc_conv_app_nth)
  qed
qed

lemma dedupeStep_absorb:
  assumes "comparable item" and "\<forall>u \<in> set us. comparable u"
  shows "dedupeStep tm us item = absorb tm item us"
  using scan_absorb [OF assms, of 0 tm] by (simp add: dedupeStep_def)

lemma absorb_comparable:
  "comparable item \<Longrightarrow> \<forall>u \<in> set us. comparable u \<Longrightarrow> \<forall>u \<in> set (absorb tm item us). comparable u"
  by (induction us) (auto simp: comparable_id)

lemma foldl_dedupe:
  "\<forall>u \<in> set reps. comparable u \<Longrightarrow> \<forall>item \<in> set items. comparable item \<Longrightarrow>
   foldl (dedupeStep tm) reps items = foldl (\<lambda>reps incoming. absorb tm incoming reps) reps items"
proof (induction items arbitrary: reps)
  case Nil
  show ?case by simp
next
  case (Cons item items)
  then have c: "comparable item" and rest: "\<forall>i \<in> set items. comparable i" by simp_all
  have step: "dedupeStep tm reps item = absorb tm item reps"
    using c Cons.prems(1) by (rule dedupeStep_absorb)
  have "\<forall>u \<in> set (absorb tm item reps). comparable u"
    using c Cons.prems(1) by (rule absorb_comparable)
  then show ?case
    using Cons.IH [of "absorb tm item reps"] rest by (simp add: step)
qed

lemma jazz_example:
  "dedupe parseUTC (normalizeItems sha256hex reZone nowISO [jazzA, jazzB] tz None) =
     [(normalizeItem sha256hex reZone nowISO tz jazzB)
        \<lparr>id' := id' (normalizeItem sha256hex reZone nowISO tz jazzA)\<rparr>]"
proof -
  let ?a = "normalizeItem sha256hex reZone nowISO tz jazzA"
  let ?b = "normalizeItem sha256hex reZone nowISO tz jazzB"
  have fa: "normalizedTitle ?a = ''jazz night''" "startTime ?a = Some ''2025-06-10T10:00:00Z''"
    "description ?a = None"
    by (simp_all add: normalizeItem_def ProviderItem.extend_def NormalizedItem.fields_def
          jazzA_def exampleRaw_def normalizeTitle_examples convertTime_def)
  have fb: "normalizedTitle ?b = ''jazz night''" "startTime ?b = Some ''2025-06-10T10:10:00Z''"
    "description ?b = Some ''live music''"
    by (simp_all add: normalizeItem_def ProviderItem.extend_def NormalizedItem.fields_def
          jazzB_def exampleRaw_def normalizeTitle_examples convertTime_def)
  have dup: "isDuplicateOf parseUTC ?b ?a"
    by (simp add: isDuplicateOf_def fa fb similarity_same getTime_def parse_examples js_sub_def)
  have more: "hasMoreInfo ?b ?a"
    by (simp add: hasMoreInfo_def fa fb)
  have s0: "scanUnique parseUTC ?a [] 0 = (False, [])"
    by (simp add: scanUnique.simps)
  have s1: "scanUnique parseUTC ?b [?a] 0 = (True, [?b\<lparr>id' := id' ?a\<rparr>])"
    by (subst scanUnique.simps) (simp add: dup more)
  show ?thesis
    by (simp add: dedupe_def normalizeItems_def passesFilter_def dedupeStep_def s0 s1)
qed

text \<open>
  C1, as amended. On items whose coordinates, where present, are not zero and whose
  popularity, where present, is not negative, \<open>dedupe\<close> is the linear scan of the
  specification. An incoming item is a duplicate of a representative exactly when
  their title similarity exceeds 0.90 and their start times are less than 30 minutes
  apart, or it exceeds 0.80 and they carry coordinates less than 200 meters apart and
  their start times are less than 30 minutes apart. The first representative that it
  duplicates ends the scan; the incoming item takes its place, under the
  representative's identifier, exactly when the representative lacks a description
  and the incoming item has one, or lacks an image and the incoming item has one, or
  the incoming item's popularity exceeds the representative's, an item without
  popularity counting as popularity zero; otherwise the representative stays as it is.
  The two items of the merge example, normalized, are merged into one item with the
  identifier of the first and the description of the second.
\<close>

theorem dedupe_merges_near_duplicates:
  "((\<forall>item \<in> set items. comparable item) \<longrightarrow> dedupe tm items = dedupeSpec tm items) \<and>
   (comparable a \<and> comparable b \<longrightarrow>
      isDuplicateOf tm a b = duplicates tm a b \<and> hasMoreInfo a b = improves a b) \<and>
   dedupe parseUTC (normalizeItems sha256hex reZone nowISO [jazzA, jazzB] tz None) =
     [(normalizeItem sha256hex reZone nowISO tz jazzB)
        \<lparr>id' := id' (normalizeItem sha256hex reZone nowISO tz jazzA)\<rparr>]"
proof (intro conjI impI)
  assume "\<forall>item \<in> set items. comparable item"
  then show "dedupe tm items = dedupeSpec tm items"
    using foldl_dedupe [of "[]" items tm] by (simp add: dedupe_def dedupeSpec_def)
next
  assume "comparable a \<and> comparable b"
  then show "isDuplicateOf tm a b = duplicates tm a b"
    by (simp add: isDuplicateOf_duplicates)
next
  assume "comparable a \<and> comparable b"
  then show "hasMoreInfo a b = improves a b"
    by (simp add: hasMoreInfo_improves)
next
  show "dedupe parseUTC (normalizeItems sha256hex reZone nowISO [jazzA, jazzB] tz None) =
     [(normalizeItem sha256hex reZone nowISO tz jazzB)
        \<lparr>id' := id' (normalizeItem sha256hex reZone nowISO tz jazzA)\<rparr>]"
    by (rule jazz_example)
qed

theorem dedupe_merges_near_duplicates_witness:
  "dedupe parseUTC
     [exampleItem\<lparr>startTime := Some ''2025-06-10T10:00:00Z''\<rparr>,
      exampleItem\<lparr>id' := ''b'', description := Some ''live music'',
                    startTime := Some ''2025-06-10T10:10:00Z''\<rparr>,
      exampleItem\<lparr>id' := ''c'', startTime := Some ''2025-06-12T00:00:00Z''\<rparr>] =
     [exampleItem\<lparr>description := Some ''live music'',
                    startTime := Some ''2025-06-10T10:10:00Z''\<rparr>,
      exampleItem\<lparr>id' := ''c'', startTime := Some ''2025-06-12T00:00:00Z''\<rparr>]"
proof -
  let ?x = "exampleItem\<lparr>startTime := Some ''2025-06-10T10:00:00Z''\<rparr>"
  let ?y = "exampleItem\<lparr>id' := ''b'', description := Some ''live music'',
                    startTime := Some ''2025-06-10T10:10:00Z''\<rparr>"
  let ?z = "exampleItem\<lparr>id' := ''c'', startTime := Some ''2025-06-12T00:00:00Z''\<rparr>"
  have c: "\<forall>item \<in> set [?x, ?y, ?z]. comparable item"
    by (simp add: comparable_def offAxis_def nonNegative_def exampleItem_def)
  have "dedupe parseUTC [?x, ?y, ?z] = dedupeSpec parseUTC [?x, ?y, ?z]"
    using dedupe_merges_near_duplicates [of "[?x, ?y, ?z]" parseUTC] c by blast
  also have "\<dots> = [exampleItem\<lparr>description := Some ''live music'',
                    startTime := Some ''2025-06-10T10:10:00Z''\<rparr>, ?z]"
    by (simp add: dedupeSpec_def duplicates_def titleSimilarity_def timeProximate_def
          similarity_same improves_def getTime_def parse_examples js_sub_def exampleItem_def)
  finally show ?thesis .
qed

text \<open>
  A representative without popularity and a duplicate of it whose popularity is zero:
  to the letter the representative has none and is replaced; the code leaves it.
\<close>

theorem zero_popularity_counterexample:
  "duplicates parseUTC
     (exampleItem\<lparr>id' := ''b'', startTime := Some ''2025-06-10T10:00:00Z'',
                   popularity := Some (Num 0)\<rparr>)
     (exampleItem\<lparr>startTime := Some ''2025-06-10T10:00:00Z''\<rparr>) \<and>
   improvesToTheLetter
     (exampleItem\<lparr>id' := ''b'', startTime := Some ''2025-06-10T10:00:00Z'',
                   popularity := Some (Num 0)\<rparr>)
     (exampleItem\<lparr>startTime := Some ''2025-06-10T10:00:00Z''\<rparr>) \<and>
   dedupe parseUTC
     [exampleItem\<lparr>startTime := Some ''2025-06-10T10:00:00Z''\<rparr>,
      exampleItem\<lparr>id' := ''b'', startTime := Some ''2025-06-10T10:00:00Z'',
                    popularity := Some (Num 0)\<rparr>] =
     [exampleItem\<lparr>startTime := Some ''2025-06-10T10:00:00Z''\<rparr>] \<and>
   exampleItem\<lparr>startTime := Some ''2025-06-10T10:00:00Z''\<rparr> \<noteq>
   exampleItem\<lparr>id' := ''b'', startTime := Some ''2025-06-10T10:00:00Z'',
                 popularity := Some (Num 0)\<rparr>
     \<lparr>id' := id' (exampleItem\<lparr>startTime := Some ''2025-06-10T10:00:00Z''\<rparr>)\<rparr>"
proof -
  let ?x = "exampleItem\<lparr>startTime := Some ''2025-06-10T10:00:00Z''\<rparr>"
  let ?y = "exampleItem\<lparr>id' := ''b'', startTime := Some ''2025-06-10T10:00:00Z'',
                   popularity := Some (Num 0)\<rparr>"
  have d: "duplicates parseUTC ?y ?x"
    by (simp add: duplicates_def titleSimilarity_def timeProximate_def similarity_same
          getTime_def parse_examples js_sub_def)
  have l: "improvesToTheLetter ?y ?x"
    by (simp add: improvesToTheLetter_def exampleItem_def)
  have dup: "isDuplicateOf parseUTC ?y ?x"
    by (simp add: isDuplicateOf_def similarity_same getTime_def parse_examples js_sub_def)
  have more: "\<not> hasMoreInfo ?y ?x"
    by (simp add: hasMoreInfo_def exampleItem_def)
  have s0: "scanUnique parseUTC ?x [] 0 = (False, [])"
    by (simp add: scanUnique.simps)
  have s1: "scanUnique parseUTC ?y [?x] 0 = (True, [?x])"
    by (subst scanUnique.simps) (simp add: dup more)
  have e: "dedupe parseUTC [?x, ?y] = [?x]"
    by (simp add: dedupe_def dedupeStep_def s0 s1)
  have n: "?x \<noteq> ?y\<lparr>id' := id' ?x\<rparr>"
  proof
    assume "?x = ?y\<lparr>id' := id' ?x\<rparr>"
    then have "popularity ?x = popularity (?y\<lparr>id' := id' ?x\<rparr>)" by (rule arg_cong)
    then show False by (simp add: exampleItem_def)
  qed
  show ?thesis using d l e n by blast
qed

text \<open>
  Two items at the same place on the equator and at the same time, whose titles are
  similar to 0.9: near-duplicates by their places, which the code does not compare.
\<close>

lemma zero_coordinates_not_merged:
  "duplicates parseUTC
     (exampleItem\<lparr>id' := ''b'', normalizedTitle := ''jazz nigh7'',
                   startTime := Some ''2025-06-10T10:00:00Z'',
                   lat := Some (Num 0), lng := Some (Num 10)\<rparr>)
     (exampleItem\<lparr>startTime := Some ''2025-06-10T10:00:00Z'',
                   lat := Some (Num 0), lng := Some (Num 10)\<rparr>) \<and>
   \<not> isDuplicateOf parseUTC
     (exampleItem\<lparr>id' := ''b'', normalizedTitle := ''jazz nigh7'',
                   startTime := Some ''2025-06-10T10:00:00Z'',
                   lat := Some (Num 0), lng := Some (Num 10)\<rparr>)
     (exampleItem\<lparr>startTime := Some ''2025-06-10T10:00:00Z'',
                   lat := Some (Num 0), lng := Some (Num 10)\<rparr>)"
  by (simp add: duplicates_def isDuplicateOf_def titleSimilarity_def timeProximate_def
        locationProximate_def similarity_example getDistance_same_point getTime_def
        parse_examples js_sub_def exampleItem_def)

subsection \<open>Ranker: the order\<close>

lemma mset_insertSorted: "mset (insertSorted cmp x xs) = add_mset x (mset xs)"
  by (induction xs) simp_all

lemma mset_jsSort: "mset (jsSort cmp xs) = mset xs"
  by (induction xs) (simp_all add: mset_insertSorted)

lemma set_insertSorted: "set (insertSorted cmp x xs) = insert x (set xs)"
  using mset_insertSorted [of cmp x xs] by (metis set_mset_add_mset_insert set_mset_mset)

lemma set_jsSort: "set (jsSort cmp xs) = set xs"
  using mset_jsSort [of cmp xs] by (metis set_mset_mset)

lemma scoreOrZero_not_NaN: "scoreOrZero a \<noteq> NaN"
  by (cases "score a") (auto simp: scoreOrZero_def orElse_def elim: truthy.elims)

lemma scoreOrZero_score: "score a = Some s \<Longrightarrow> s \<noteq> NaN \<Longrightarrow> scoreOrZero a = s"
  by (cases s) (auto simp: scoreOrZero_def orElse_def)

lemma compareScore_positive:
  "js_gt (compareScore x y) (Num 0) = js_lt (scoreOrZero x) (scoreOrZero y)"
  by (simp add: compareScore_def sub_positive scoreOrZero_not_NaN)

lemma sorted_insertSorted:
  "sorted_wrt (\<lambda>a b. js_ge (scoreOrZero a) (scoreOrZero b)) xs \<Longrightarrow>
   sorted_wrt (\<lambda>a b. js_ge (scoreOrZero a) (scoreOrZero b)) (insertSorted compareScore x xs)"
proof (induction xs)
  case Nil
  show ?case by simp
next
  case (Cons y ys)
  show ?case
  proof (cases "js_lt (scoreOrZero x) (scoreOrZero y)")
    case True
    then have "js_ge (scoreOrZero y) (scoreOrZero x)" by (rule js_lt_imp_ge)
    with Cons True show ?thesis
      by (auto simp: compareScore_positive set_insertSorted)
  next
    case False
    then have xy: "js_ge (scoreOrZero x) (scoreOrZero y)"
      by (simp add: js_ge_iff_not_lt scoreOrZero_not_NaN)
    have "js_ge (scoreOrZero x) (scoreOrZero z)" if "z \<in> set ys" for z
      using Cons.prems that xy by (auto intro: js_ge_trans)
    with Cons.prems False xy show ?thesis
      by (auto simp: compareScore_positive)
  qed
qed

lemma sorted_jsSort:
  "sorted_wrt (\<lambda>a b. js_ge (scoreOrZero a) (scoreOrZero b)) (jsSort compareScore xs)"
  by (induction xs) (simp_all add: sorted_insertSorted)

lemma filter_insertSorted:
  "filter (\<lambda>z. scoreOrZero z = k) (insertSorted compareScore x xs) =
   filter (\<lambda>z. scoreOrZero z = k) (x # xs)"
proof (induction xs)
  case Nil
  show ?case by simp
next
  case (Cons y ys)
  show ?case
  proof (cases "js_lt (scoreOrZero x) (scoreOrZero y)")
    case True
    then have "scoreOrZero x \<noteq> scoreOrZero y" using js_lt_irrefl by metis
    with Cons True show ?thesis by (auto simp: compareScore_positive)
  next
    case False
    then show ?thesis by (simp add: compareScore_positive)
  qed
qed

lemma stable_jsSort:
  "filter (\<lambda>z. scoreOrZero z = k) (jsSort compareScore xs) = filter (\<lambda>z. scoreOrZero z = k) xs"
  by (induction xs) (simp_all add: filter_insertSorted)

lemma sorted_scores:
  assumes "sorted_wrt (\<lambda>a b. js_ge (scoreOrZero a) (scoreOrZero b)) xs"
  shows "sorted_wrt (\<lambda>a b. \<forall>s t. score a = Some s \<and> score b = Some t \<and> s \<noteq> NaN \<and> t \<noteq> NaN
                          \<longrightarrow> js_ge s t) xs"
  using assms by (rule sorted_wrt_mono_rel [rotated]) (auto simp: scoreOrZero_score)

lemma rank_unfold:
  "rank tm now items params =
     jsSort compareScore
       (map (\<lambda>item. item\<lparr>score := Some (scoreItem tm now (center params)
                   (case sortBy params of None \<Rightarrow> Recommended | Some s \<Rightarrow> s) item)\<rparr>) items)"
  by (simp add: rank_def)

lemma map_id_annotate: "map id' (map (\<lambda>item. item\<lparr>score := f item\<rparr>) items) = map id' items"
  by (induction items) simp_all

text \<open>
  C2. For every list of items, every strategy and every center, \<open>rank\<close> returns the
  items of the input, none dropped and none added: the identifiers of the output are
  those of the input with their multiplicities, and the output is a permutation of the
  input items annotated with their scores. Every item of the output has a score. The
  output is in descending order of the score (as the comparator reads it: a score of
  NaN as zero), and items of equal score keep their input order.
\<close>

theorem rank_sorts_all_items:
  "mset (map id' (rank tm now items params)) = mset (map id' items) \<and>
   length (rank tm now items params) = length items \<and>
   mset (rank tm now items params) =
     mset (map (\<lambda>item. item\<lparr>score := Some (scoreItem tm now (center params)
                   (case sortBy params of None \<Rightarrow> Recommended | Some s \<Rightarrow> s) item)\<rparr>) items) \<and>
   (\<forall>x \<in> set (rank tm now items params).
      \<exists>s. score x = Some s \<and> (s \<noteq> NaN \<longrightarrow> scoreOrZero x = s)) \<and>
   sorted_wrt (\<lambda>a b. js_ge (scoreOrZero a) (scoreOrZero b)) (rank tm now items params) \<and>
   sorted_wrt (\<lambda>a b. \<forall>s t. score a = Some s \<and> score b = Some t \<and> s \<noteq> NaN \<and> t \<noteq> NaN
                   \<longrightarrow> js_ge s t) (rank tm now items params) \<and>
   (\<forall>k. filter (\<lambda>x. scoreOrZero x = k) (rank tm now items params) =
        filter (\<lambda>x. scoreOrZero x = k)
          (map (\<lambda>item. item\<lparr>score := Some (scoreItem tm now (center params)
                   (case sortBy params of None \<Rightarrow> Recommended | Some s \<Rightarrow> s) item)\<rparr>) items))"
proof -
  define scored where "scored =
    map (\<lambda>item. item\<lparr>score := Some (scoreItem tm now (center params)
                   (case sortBy params of None \<Rightarrow> Recommended | Some s \<Rightarrow> s) item)\<rparr>) items"
  have r: "rank tm now items params = jsSort compareScore scored"
    unfolding scored_def by (rule rank_unfold)
  have m: "mset (jsSort compareScore scored) = mset scored"
    by (rule mset_jsSort)
  have "mset (map id' (jsSort compareScore scored)) = image_mset id' (mset (jsSort compareScore scored))"
    by simp
  also have "\<dots> = image_mset id' (mset scored)"
    by (simp only: m)
  also have "\<dots> = mset (map id' scored)"
    by simp
  also have "\<dots> = mset (map id' items)"
    unfolding scored_def by (simp only: map_id_annotate)
  finally have ids: "mset (map id' (jsSort compareScore scored)) = mset (map id' items)" .
  have "length (jsSort compareScore scored) = length scored"
    using m by (rule mset_eq_length)
  then have len: "length (jsSort compareScore scored) = length items"
    by (simp add: scored_def)
  have sc: "\<exists>s. score x = Some s \<and> (s \<noteq> NaN \<longrightarrow> scoreOrZero x = s)"
    if "x \<in> set (jsSort compareScore scored)" for x
  proof -
    from that have "x \<in> set scored" by (simp only: set_jsSort)
    then obtain item v where "x = item\<lparr>score := Some v\<rparr>"
      unfolding scored_def by auto
    then show ?thesis by (simp add: scoreOrZero_score)
  qed
  have srt: "sorted_wrt (\<lambda>a b. js_ge (scoreOrZero a) (scoreOrZero b)) (jsSort compareScore scored)"
    by (rule sorted_jsSort)
  have raw: "sorted_wrt (\<lambda>a b. \<forall>s t. score a = Some s \<and> score b = Some t \<and> s \<noteq> NaN \<and> t \<noteq> NaN
                   \<longrightarrow> js_ge s t) (jsSort compareScore scored)"
    using srt by (rule sorted_scores)
  have stb: "\<forall>k. filter (\<lambda>x. scoreOrZero x = k) (jsSort compareScore scored) =
        filter (\<lambda>x. scoreOrZero x = k) scored"
    by (simp only: stable_jsSort) simp
  show ?thesis
    unfolding r using ids len m sc srt raw stb unfolding scored_def by blast
qed

theorem rank_sorts_all_items_witness:
  "rank parseUTC 1749549600000
     [exampleItem\<lparr>id' := ''a'', priceMin := Some (Num 10)\<rparr>,
      exampleItem\<lparr>id' := ''b''\<rparr>,
      exampleItem\<lparr>id' := ''c'', priceMin := Some (Num 0)\<rparr>]
     \<lparr>center = None, sortBy = Some Price\<rparr> =
     [exampleItem\<lparr>id' := ''b'', score := Some (Num 1)\<rparr>,
      exampleItem\<lparr>id' := ''c'', priceMin := Some (Num 0), score := Some (Num 1)\<rparr>,
      exampleItem\<lparr>id' := ''a'', priceMin := Some (Num 10), score := Some (Num (1 / 11))\<rparr>] \<and>
   mset (map id' (rank parseUTC 1749549600000
     [exampleItem\<lparr>id' := ''a'', priceMin := Some (Num 10)\<rparr>,
      exampleItem\<lparr>id' := ''b''\<rparr>,
      exampleItem\<lparr>id' := ''c'', priceMin := Some (Num 0)\<rparr>]
     \<lparr>center = None, sortBy = Some Price\<rparr>)) = {#''a'', ''b'', ''c''#}"
proof -
  let ?items = "[exampleItem\<lparr>id' := ''a'', priceMin := Some (Num 10)\<rparr>,
      exampleItem\<lparr>id' := ''b''\<rparr>,
      exampleItem\<lparr>id' := ''c'', priceMin := Some (Num 0)\<rparr>]"
  let ?params = "\<lparr>center = None, sortBy = Some Price\<rparr>"
  have "mset (map id' (rank parseUTC 1749549600000 ?items ?params)) = mset (map id' ?items)"
    using rank_sorts_all_items [of parseUTC 1749549600000 ?items ?params] by (rule conjunct1)
  then have ids: "mset (map id' (rank parseUTC 1749549600000 ?items ?params)) =
      {#''a'', ''b'', ''c''#}"
    by simp
  have order: "rank parseUTC 1749549600000 ?items ?params =
     [exampleItem\<lparr>id' := ''b'', score := Some (Num 1)\<rparr>,
      exampleItem\<lparr>id' := ''c'', priceMin := Some (Num 0), score := Some (Num 1)\<rparr>,
      exampleItem\<lparr>id' := ''a'', priceMin := Some (Num 10), score := Some (Num (1 / 11))\<rparr>]"
    by (simp add: rank_def scoreItem_def compareScore_def scoreOrZero_def orElse_def js_sub_def
          js_gt_def exampleItem_def)
  show ?thesis using order ids by simp
qed

subsection \<open>Ranker: the strategies\<close>

lemma soonest_value:
  "startTime item = Some s \<Longrightarrow> s \<noteq> [] \<Longrightarrow> tm s = Some t \<Longrightarrow>
   scoreItem tm now c Soonest item =
     (if t - now = - 1 then PosInf else Num (1 / (1 + real_of_int (t - now))))"
  by (auto simp: scoreItem_def getTime_def js_sub_def signed_inf_def Let_def)

text \<open>
  C8, as amended. Under the \<open>soonest\<close> strategy an item with a start time is scored
  \<open>1 / (1 + \<Delta>t)\<close>, \<open>\<Delta>t\<close> being the milliseconds from now to its start; an item
  without start time is scored \<open>0\<close>. Of two items that both start no earlier than
  one millisecond ago, or both earlier than that, the one that starts sooner never
  scores lower.
\<close>

theorem soonest_score:
  "(startTime item = Some s \<and> s \<noteq> [] \<longrightarrow>
      scoreItem tm now c Soonest item =
        js_div (Num 1) (js_add (Num 1) (js_sub (getTime tm s) (Num (real_of_int now))))) \<and>
   (\<not> truthyS (startTime item) \<longrightarrow> scoreItem tm now c Soonest item = Num 0) \<and>
   (startTime a = Some sa \<and> sa \<noteq> [] \<and> tm sa = Some ta \<and>
    startTime b = Some sb \<and> sb \<noteq> [] \<and> tm sb = Some tb \<and>
    ta \<le> tb \<and> (now - 1 \<le> ta \<or> tb < now - 1) \<longrightarrow>
      js_ge (scoreItem tm now c Soonest a) (scoreItem tm now c Soonest b))"
proof (intro conjI impI)
  assume "startTime item = Some s \<and> s \<noteq> []"
  then show "scoreItem tm now c Soonest item =
        js_div (Num 1) (js_add (Num 1) (js_sub (getTime tm s) (Num (real_of_int now))))"
    by (simp add: scoreItem_def)
next
  assume "\<not> truthyS (startTime item)"
  then show "scoreItem tm now c Soonest item = Num 0"
    by (cases "startTime item") (simp_all add: scoreItem_def)
next
  assume h: "startTime a = Some sa \<and> sa \<noteq> [] \<and> tm sa = Some ta \<and>
    startTime b = Some sb \<and> sb \<noteq> [] \<and> tm sb = Some tb \<and>
    ta \<le> tb \<and> (now - 1 \<le> ta \<or> tb < now - 1)"
  then have va: "scoreItem tm now c Soonest a =
     (if ta - now = - 1 then PosInf else Num (1 / (1 + real_of_int (ta - now))))"
    and vb: "scoreItem tm now c Soonest b =
     (if tb - now = - 1 then PosInf else Num (1 / (1 + real_of_int (tb - now))))"
    by (simp_all add: soonest_value)
  from h have le: "ta \<le> tb" and side: "now - 1 \<le> ta \<or> tb < now - 1" by simp_all
  show "js_ge (scoreItem tm now c Soonest a) (scoreItem tm now c Soonest b)"
  proof (cases "ta - now = - 1")
    case True
    then show ?thesis by (simp add: va vb js_ge_PosInf)
  next
    case na: False
    show ?thesis
    proof (cases "tb - now = - 1")
      case True
      with na le side show ?thesis by auto
    next
      case nb: False
      have x: "1 + real_of_int (ta - now) \<le> 1 + real_of_int (tb - now)"
        using le by simp
      have "0 < 1 + real_of_int (ta - now) \<or> 1 + real_of_int (tb - now) < 0"
      proof -
        from side na nb have "0 < 1 + (ta - now) \<or> 1 + (tb - now) < 0" by auto
        then show ?thesis
          by (metis of_int_0_less_iff of_int_less_0_iff of_int_add of_int_1)
      qed
      with x have "1 / (1 + real_of_int (tb - now)) \<le> 1 / (1 + real_of_int (ta - now))"
        by (rule inverse_order)
      then show ?thesis
        using na nb by (simp add: va vb js_ge_Num)
    qed
  qed
qed

theorem soonest_score_witness:
  "scoreItem parseUTC 1749549600000 None Soonest
     (exampleItem\<lparr>startTime := Some ''2025-06-10T10:10:00Z''\<rparr>) = Num (1 / 600001) \<and>
   scoreItem parseUTC 1749549600000 None Soonest exampleItem = Num 0 \<and>
   js_ge (scoreItem parseUTC 1749549600000 None Soonest
            (exampleItem\<lparr>startTime := Some ''2025-06-10T10:10:00Z''\<rparr>))
         (scoreItem parseUTC 1749549600000 None Soonest
            (exampleItem\<lparr>startTime := Some ''2025-06-10T11:00:00Z''\<rparr>))"
proof -
  let ?a = "exampleItem\<lparr>startTime := Some ''2025-06-10T10:10:00Z''\<rparr>"
  let ?b = "exampleItem\<lparr>startTime := Some ''2025-06-10T11:00:00Z''\<rparr>"
  note inst = soonest_score [of ?a "''2025-06-10T10:10:00Z''" parseUTC 1749549600000 None
      ?a "''2025-06-10T10:10:00Z''" 1749550200000 ?b "''2025-06-10T11:00:00Z''" 1749553200000]
  note none = soonest_score [of exampleItem "''''" parseUTC 1749549600000 None
      ?a "''2025-06-10T10:10:00Z''" 1749550200000 ?b "''2025-06-10T11:00:00Z''" 1749553200000]
  have 1: "scoreItem parseUTC 1749549600000 None Soonest ?a = Num (1 / 600001)"
    using inst by (simp add: getTime_def parse_examples js_sub_def)
  have 2: "scoreItem parseUTC 1749549600000 None Soonest exampleItem = Num 0"
    using none by (simp add: exampleItem_def)
  have 3: "js_ge (scoreItem parseUTC 1749549600000 None Soonest ?a)
         (scoreItem parseUTC 1749549600000 None Soonest ?b)"
    using inst [THEN conjunct2, THEN conjunct2] by (simp add: parse_examples)
  show ?thesis using 1 2 3 by simp
qed

text \<open>
  An item that started an hour ago scores lower than the item, otherwise the same, that
  starts in an hour.
\<close>

theorem soonest_past_counterexample:
  "js_lt (scoreItem parseUTC 1749549600000 None Soonest
            (exampleItem\<lparr>startTime := Some ''2025-06-10T09:00:00Z''\<rparr>))
         (scoreItem parseUTC 1749549600000 None Soonest
            (exampleItem\<lparr>startTime := Some ''2025-06-10T11:00:00Z''\<rparr>)) \<and>
   scoreItem parseUTC 1749549600000 None Soonest
     (exampleItem\<lparr>startTime := Some ''2025-06-10T09:00:00Z''\<rparr>) = Num (- 1 / 3599999) \<and>
   scoreItem parseUTC 1749549600000 None Soonest
     (exampleItem\<lparr>startTime := Some ''2025-06-10T11:00:00Z''\<rparr>) = Num (1 / 3600001)"
  by (simp add: scoreItem_def getTime_def parse_examples js_sub_def)

text \<open>
  At one millisecond after the start the divisor is zero and the score is infinite.
\<close>

lemma soonest_pole:
  "scoreItem parseUTC 1749549600001 None Soonest
     (exampleItem\<lparr>startTime := Some ''2025-06-10T10:00:00Z''\<rparr>) = PosInf"
  by (simp add: scoreItem_def getTime_def parse_examples js_sub_def signed_inf_def)

text \<open>
  The \<open>closest\<close> strategy with a center: the score is \<open>1 / (1 + d)\<close>, \<open>d\<close> the
  distance from the center, for an item whose coordinates are both truthy, and \<open>0\<close>
  for every other item.
\<close>

lemma closest_score:
  "scoreItem tm now (Some (c0, c1)) Closest item =
     (case (lat item, lng item) of
        (Some la, Some lo) \<Rightarrow>
          if la = Num 0 \<or> la = NaN \<or> lo = Num 0 \<or> lo = NaN then Num 0
          else js_div (Num 1) (js_add (Num 1) (getDistance c0 c1 la lo))
      | _ \<Rightarrow> Num 0)"
  by (auto simp: scoreItem_def truthy_iff split: option.splits)

text \<open>
  C7, at a coordinate of zero. Under the \<open>closest\<close> strategy with a center, an item
  on the equator or on the prime meridian is scored \<open>0\<close>, as an item without
  coordinates is: the code tests the coordinates for truthiness. For the item at
  latitude 0, longitude 10 and the center at the same place the distance is \<open>0\<close>
  and the score \<open>1 / (1 + d)\<close> would be \<open>1\<close>.
\<close>

theorem closest_zero_coordinate:
  "(lat item = Some (Num 0) \<or> lng item = Some (Num 0) \<longrightarrow>
      scoreItem tm now (Some c) Closest item = Num 0) \<and>
   scoreItem tm now (Some (Num 0, Num 10)) Closest
     (exampleItem\<lparr>lat := Some (Num 0), lng := Some (Num 10)\<rparr>) = Num 0 \<and>
   js_div (Num 1) (js_add (Num 1) (getDistance (Num 0) (Num 10) (Num 0) (Num 10))) = Num 1"
  by (auto simp: scoreItem_def getDistance_same_point split: option.splits prod.splits)

theorem closest_zero_coordinate_witness:
  "scoreItem parseUTC 1749549600000 (Some (Num 51.4779, Num 0)) Closest
     (exampleItem\<lparr>lat := Some (Num 51.4779), lng := Some (Num 0)\<rparr>) = Num 0"
  using closest_zero_coordinate [of "exampleItem\<lparr>lat := Some (Num 51.4779), lng := Some (Num 0)\<rparr>"
      parseUTC 1749549600000 "(Num 51.4779, Num 0)"]
  by simp

text \<open>
  C10. Ranking by \<open>closest\<close> without a center scores no item by its distance: every
  item gets the score of the \<open>recommended\<close> strategy, and the ranking is the one that
  \<open>recommended\<close>, or no strategy at all, gives.
\<close>

theorem closest_without_center:
  "scoreItem tm now None Closest item = recommendedScore tm now None item \<and>
   scoreItem tm now None Closest item = scoreItem tm now None Recommended item \<and>
   rank tm now items \<lparr>center = None, sortBy = Some Closest\<rparr> =
     rank tm now items \<lparr>center = None, sortBy = Some Recommended\<rparr> \<and>
   rank tm now items \<lparr>center = None, sortBy = Some Closest\<rparr> =
     rank tm now items \<lparr>center = None, sortBy = None\<rparr>"
  by (simp add: scoreItem_def rank_def)

theorem closest_without_center_witness:
  "scoreItem parseUTC 1749549600000 None Closest exampleItem = Num (151 / 12) \<and>
   rank parseUTC 1749549600000 [exampleItem] \<lparr>center = None, sortBy = Some Closest\<rparr> =
     [exampleItem\<lparr>score := Some (Num (151 / 12))\<rparr>]"
proof -
  have r: "recommendedScore parseUTC 1749549600000 None exampleItem = Num (151 / 12)"
    by (simp add: recommendedScore_def addPopularity_def addAttendance_def addRecency_def
          addProximity_def addCompleteness_def addCategoryBoost_def addTimeRelevance_def
          exampleItem_def getTime_def parse_examples js_sub_def js_max_def js_min_def
          orElse_def)
  show ?thesis
    using closest_without_center [of parseUTC 1749549600000 exampleItem "[exampleItem]"] r
    by (simp add: rank_def scoreItem_def)
qed

subsection \<open>Double arithmetic: rounding\<close>

lemma roundEven_cases: "roundEven x = \<lfloor>x\<rfloor> \<or> roundEven x = \<lfloor>x\<rfloor> + 1"
  by (simp add: roundEven_def Let_def)

lemma roundEven_of_int: "roundEven (of_int k) = k"
  by (simp add: roundEven_def)

lemma roundEven_mono:
  assumes "x \<le> y"
  shows "roundEven x \<le> roundEven y"
proof (cases "\<lfloor>x\<rfloor> = \<lfloor>y\<rfloor>")
  case True
  then show ?thesis
    using assms by (auto simp: roundEven_def Let_def)
next
  case False
  with assms have "\<lfloor>x\<rfloor> < \<lfloor>y\<rfloor>"
    using floor_mono [OF assms] by linarith
  moreover have "roundEven x \<le> \<lfloor>x\<rfloor> + 1" "\<lfloor>y\<rfloor> \<le> roundEven y"
    using roundEven_cases [of x] roundEven_cases [of y] by auto
  ultimately show ?thesis by linarith
qed

lemma roundEven_near: "\<bar>of_int (roundEven x) - x\<bar> \<le> 1 / 2"
proof -
  have "of_int \<lfloor>x\<rfloor> \<le> x" "x < of_int \<lfloor>x\<rfloor> + 1"
    by linarith+
  then show ?thesis
    by (auto simp: roundEven_def Let_def abs_le_iff)
qed

lemma roundEven_low: "x - of_int \<lfloor>x\<rfloor> < 1 / 2 \<Longrightarrow> roundEven x = \<lfloor>x\<rfloor>"
  by (simp add: roundEven_def Let_def)

lemma roundEven_high: "1 / 2 < x - of_int \<lfloor>x\<rfloor> \<Longrightarrow> roundEven x = \<lfloor>x\<rfloor> + 1"
  by (simp add: roundEven_def Let_def)

lemma roundEven_tie:
  "x - of_int \<lfloor>x\<rfloor> = 1 / 2 \<Longrightarrow> roundEven x = (if even \<lfloor>x\<rfloor> then \<lfloor>x\<rfloor> else \<lfloor>x\<rfloor> + 1)"
  by (simp add: roundEven_def Let_def)

lemma int_between:
  fixes a b :: int
  assumes "real_of_int a < real_of_int b + 1" "real_of_int b < real_of_int a + 1"
  shows "a = b"
proof -
  have "real_of_int a < real_of_int (b + 1)" "real_of_int b < real_of_int (a + 1)"
    using assms by simp_all
  then have "a < b + 1" "b < a + 1"
    by (simp_all only: of_int_less_iff)
  then show ?thesis by simp
qed

lemma roundEven_eq:
  assumes "\<bar>x - of_int m\<bar> < 1 / 2 \<or> (\<bar>x - of_int m\<bar> = 1 / 2 \<and> even m)"
  shows "roundEven x = m"
proof -
  define f where "f = \<lfloor>x\<rfloor>"
  have fl: "of_int f \<le> x" "x < of_int f + 1"
    unfolding f_def by linarith+
  consider (low) "x - of_int f < 1 / 2" | (high) "1 / 2 < x - of_int f" | (tie) "x - of_int f = 1 / 2"
    by linarith
  then show ?thesis
  proof cases
    case low
    then have r: "roundEven x = f"
      unfolding f_def by (rule roundEven_low)
    from assms have "\<bar>x - of_int m\<bar> \<le> 1 / 2" by linarith
    then have "real_of_int m < real_of_int f + 1" "real_of_int f < real_of_int m + 1"
      using low fl by linarith+
    then have "m = f" by (rule int_between)
    with r show ?thesis by simp
  next
    case high
    then have r: "roundEven x = f + 1"
      unfolding f_def by (rule roundEven_high)
    from assms have "\<bar>x - of_int m\<bar> \<le> 1 / 2" by linarith
    then have "real_of_int m < real_of_int (f + 1) + 1" "real_of_int (f + 1) < real_of_int m + 1"
      using high fl by (simp_all, linarith+)
    then have "m = f + 1" by (rule int_between)
    with r show ?thesis by simp
  next
    case tie
    then have r: "roundEven x = (if even f then f else f + 1)"
      unfolding f_def by (rule roundEven_tie)
    from assms show ?thesis
    proof
      assume "\<bar>x - of_int m\<bar> < 1 / 2"
      then have "real_of_int m < real_of_int f + 1" "real_of_int f < real_of_int m"
        using tie by linarith+
      then have "m < f + 1" "f < m"
        by (simp_all flip: of_int_less_iff)
      then show ?thesis by simp
    next
      assume a: "\<bar>x - of_int m\<bar> = 1 / 2 \<and> even m"
      then consider "real_of_int m = real_of_int f" | "real_of_int m = real_of_int (f + 1)"
        using tie by (auto simp: abs_if split: if_splits)
      then consider "m = f" | "m = f + 1"
        by (simp_all only: of_int_eq_iff) blast
      then show ?thesis
        using a r by cases auto
    qed
  qed
qed

lemma roundEven_minus: "roundEven (- x) = - roundEven x"
proof -
  define f where "f = \<lfloor>x\<rfloor>"
  have fl: "of_int f \<le> x" "x < of_int f + 1"
    unfolding f_def by linarith+
  consider (low) "x - of_int f < 1 / 2" | (high) "1 / 2 < x - of_int f" | (tie) "x - of_int f = 1 / 2"
    by linarith
  then show ?thesis
  proof cases
    case low
    then have r: "roundEven x = f"
      unfolding f_def by (rule roundEven_low)
    have "\<bar>- x - of_int (- f)\<bar> < 1 / 2"
      using low fl by simp
    then have "roundEven (- x) = - f"
      by (intro roundEven_eq) simp
    with r show ?thesis by simp
  next
    case high
    then have r: "roundEven x = f + 1"
      unfolding f_def by (rule roundEven_high)
    have "\<bar>- x - of_int (- (f + 1))\<bar> < 1 / 2"
      using high fl by simp
    then have "roundEven (- x) = - (f + 1)"
      by (intro roundEven_eq) simp
    with r show ?thesis by simp
  next
    case tie
    then have r: "roundEven x = (if even f then f else f + 1)"
      unfolding f_def by (rule roundEven_tie)
    have "\<bar>- x - of_int (- f)\<bar> = 1 / 2" "\<bar>- x - of_int (- (f + 1))\<bar> = 1 / 2"
      using tie by simp_all
    then have "roundEven (- x) = (if even f then - f else - (f + 1))"
      by (intro roundEven_eq) auto
    with r show ?thesis by simp
  qed
qed

lemma binade_bounds:
  assumes "x \<noteq> 0"
  shows "2 powr of_int (binade x) \<le> \<bar>x\<bar>" "\<bar>x\<bar> < 2 powr (of_int (binade x) + 1)"
proof -
  have "0 < \<bar>x\<bar>" using assms by simp
  then have "\<lfloor>log 2 \<bar>x\<bar>\<rfloor> = binade x \<longleftrightarrow>
      2 powr of_int (binade x) \<le> \<bar>x\<bar> \<and> \<bar>x\<bar> < 2 powr (of_int (binade x) + 1)"
    using floor_log_eq_powr_iff [of "\<bar>x\<bar>" 2 "binade x"] by simp
  then show "2 powr of_int (binade x) \<le> \<bar>x\<bar>" "\<bar>x\<bar> < 2 powr (of_int (binade x) + 1)"
    by (simp_all add: binade_def)
qed

lemma binade_eq:
  assumes "2 powr of_int e \<le> \<bar>x\<bar>" "\<bar>x\<bar> < 2 powr (of_int e + 1)"
  shows "binade x = e"
proof -
  have "0 < \<bar>x\<bar>"
    using assms(1) powr_gt_zero [of 2 "of_int e"] by linarith
  then have "\<lfloor>log 2 \<bar>x\<bar>\<rfloor> = e \<longleftrightarrow> 2 powr of_int e \<le> \<bar>x\<bar> \<and> \<bar>x\<bar> < 2 powr (of_int e + 1)"
    using floor_log_eq_powr_iff [of "\<bar>x\<bar>" 2 e] by simp
  with assms show ?thesis by (simp add: binade_def)
qed

lemma binade_mono:
  assumes "x \<noteq> 0" "\<bar>x\<bar> \<le> \<bar>y\<bar>"
  shows "binade x \<le> binade y"
proof -
  have "0 < \<bar>x\<bar>" using assms by simp
  then have "log 2 \<bar>x\<bar> \<le> log 2 \<bar>y\<bar>"
    using assms(2) by simp
  then show ?thesis
    unfolding binade_def by (rule floor_mono)
qed

lemma binade_minus: "binade (- x) = binade x"
  by (simp add: binade_def)

lemma ulp_minus: "ulp (- x) = ulp x"
  by (simp add: ulp_def binade_minus)

lemma ulp_positive: "0 < ulp x"
  by (simp add: ulp_def)

lemma nearest_minus: "nearest (- x) = - nearest x"
  by (simp add: nearest_def ulp_minus roundEven_minus)

lemma nearest_nonneg:
  assumes "0 \<le> x"
  shows "0 \<le> nearest x"
proof (cases "x = 0")
  case True
  then show ?thesis by (simp add: nearest_def)
next
  case False
  have "0 \<le> x / ulp x"
    using assms ulp_positive [of x] by simp
  then have "roundEven 0 \<le> roundEven (x / ulp x)"
    by (rule roundEven_mono)
  then have "0 \<le> roundEven (x / ulp x)"
    using roundEven_of_int [of 0] by simp
  then show ?thesis
    using False ulp_positive [of x] by (simp add: nearest_def)
qed

text \<open>The grid of a positive number reaches from the power of two below it to the next.\<close>

lemma nearest_below:
  assumes "0 < x"
  shows "nearest x \<le> 2 powr (of_int (max (binade x) (- 1022)) + 1)"
proof -
  define E where "E = max (binade x) (- 1022)"
  have u: "ulp x = 2 powr (of_int E - 52)"
    by (simp add: ulp_def E_def)
  have "x < 2 powr (of_int (binade x) + 1)"
    using binade_bounds(2) [of x] assms by simp
  also have "\<dots> \<le> 2 powr (of_int E + 1)"
    by (simp add: E_def)
  finally have "x / ulp x \<le> 2 powr (of_int E + 1) / ulp x"
    using ulp_positive [of x] by (simp add: divide_right_mono)
  also have "\<dots> = 2 powr 53"
    unfolding u by (simp flip: powr_diff)
  also have "\<dots> = of_int (2 ^ 53)"
    by (simp add: powr_numeral)
  finally have "roundEven (x / ulp x) \<le> roundEven (of_int (2 ^ 53))"
    by (rule roundEven_mono)
  then have "roundEven (x / ulp x) \<le> 2 ^ 53"
    by (simp only: roundEven_of_int)
  then have "real_of_int (roundEven (x / ulp x)) \<le> 2 powr 53"
    by (simp add: powr_numeral)
  then have "of_int (roundEven (x / ulp x)) * ulp x \<le> 2 powr 53 * ulp x"
    using ulp_positive [of x] by (simp add: mult_right_mono)
  also have "\<dots> = 2 powr (53 + (of_int E - 52))"
    unfolding u by (rule powr_add [symmetric])
  also have "\<dots> = 2 powr (of_int E + 1)"
    by (simp add: add.commute)
  finally show ?thesis
    using assms by (simp add: nearest_def E_def)
qed

lemma nearest_above:
  assumes "0 < x" "- 1022 \<le> binade x"
  shows "2 powr of_int (binade x) \<le> nearest x"
proof -
  have u: "ulp x = 2 powr (of_int (binade x) - 52)"
    using assms(2) by (simp add: ulp_def max_def)
  have "2 powr of_int (binade x) \<le> x"
    using binade_bounds(1) [of x] assms by simp
  then have "2 powr of_int (binade x) / ulp x \<le> x / ulp x"
    using ulp_positive [of x] by (simp add: divide_right_mono)
  moreover have "2 powr of_int (binade x) / ulp x = 2 powr 52"
    unfolding u by (simp flip: powr_diff)
  moreover have "2 powr 52 = real_of_int (2 ^ 52)"
    by (simp add: powr_numeral)
  ultimately have "roundEven (of_int (2 ^ 52)) \<le> roundEven (x / ulp x)"
    by (intro roundEven_mono) simp
  then have "2 ^ 52 \<le> roundEven (x / ulp x)"
    by (simp only: roundEven_of_int)
  then have "2 powr 52 \<le> real_of_int (roundEven (x / ulp x))"
    by (simp add: powr_numeral)
  then have "2 powr 52 * ulp x \<le> of_int (roundEven (x / ulp x)) * ulp x"
    using ulp_positive [of x] by (simp add: mult_right_mono)
  moreover have "2 powr 52 * ulp x = 2 powr of_int (binade x)"
  proof -
    have "2 powr 52 * ulp x = 2 powr (52 + (of_int (binade x) - 52))"
      unfolding u by (rule powr_add [symmetric])
    then show ?thesis by simp
  qed
  ultimately show ?thesis
    using assms by (simp add: nearest_def)
qed

lemma nearest_mono_pos:
  assumes "0 < x" "x \<le> y"
  shows "nearest x \<le> nearest y"
proof -
  define Ex where "Ex = max (binade x) (- 1022)"
  define Ey where "Ey = max (binade y) (- 1022)"
  have xy: "x \<noteq> 0" "y \<noteq> 0" "0 < y" "\<bar>x\<bar> \<le> \<bar>y\<bar>"
    using assms by simp_all
  have le: "Ex \<le> Ey"
    using binade_mono [OF xy(1) xy(4)] by (simp add: Ex_def Ey_def)
  show ?thesis
  proof (cases "Ex = Ey")
    case True
    then have u: "ulp x = ulp y"
      by (simp add: ulp_def Ex_def Ey_def)
    have "x / ulp y \<le> y / ulp y"
      using assms(2) ulp_positive [of y] by (simp add: divide_right_mono)
    then have "roundEven (x / ulp y) \<le> roundEven (y / ulp y)"
      by (rule roundEven_mono)
    then have "real_of_int (roundEven (x / ulp y)) * ulp y \<le> real_of_int (roundEven (y / ulp y)) * ulp y"
      using ulp_positive [of y] by (simp add: mult_right_mono)
    then show ?thesis
      using xy u by (simp add: nearest_def)
  next
    case False
    with le have lt: "Ex < Ey" by simp
    then have ey: "Ey = binade y" "- 1022 \<le> binade y"
      by (simp_all add: Ex_def Ey_def max_def split: if_splits)
    have "nearest x \<le> 2 powr (of_int Ex + 1)"
      using nearest_below [OF assms(1)] by (simp add: Ex_def)
    also have "\<dots> \<le> 2 powr of_int Ey"
    proof -
      have "Ex + 1 \<le> Ey" using lt by simp
      then have "real_of_int Ex + 1 \<le> real_of_int Ey" by linarith
      then show ?thesis by simp
    qed
    also have "\<dots> \<le> nearest y"
      using nearest_above [OF xy(3) ey(2)] by (simp add: ey(1))
    finally show ?thesis .
  qed
qed

lemma nearest_mono:
  assumes "x \<le> y"
  shows "nearest x \<le> nearest y"
proof -
  consider "0 < x" | "x \<le> 0" "0 \<le> y" | "y < 0"
    using assms by linarith
  then show ?thesis
  proof cases
    case 1
    then show ?thesis using assms by (rule nearest_mono_pos)
  next
    case 2
    have "nearest x \<le> 0"
      using nearest_nonneg [of "- x"] 2(1) by (simp add: nearest_minus)
    also have "0 \<le> nearest y"
      using 2(2) by (rule nearest_nonneg)
    finally show ?thesis .
  next
    case 3
    then have "nearest (- y) \<le> nearest (- x)"
      using assms by (intro nearest_mono_pos) simp_all
    then show ?thesis by (simp add: nearest_minus)
  qed
qed

text \<open>
  Reading off the nearest double: a number \<open>x\<close> with \<open>2 ^ 52 \<le> \<bar>x\<bar> * 2 ^ k < 2 ^ 53\<close> lies
  among the multiples of \<open>1 / 2 ^ k\<close>, and its nearest double is the multiple \<open>m\<close>
  nearest to \<open>x * 2 ^ k\<close>, the even one of two.
\<close>

lemma nearest_at:
  fixes k :: nat
  assumes "2 ^ 52 \<le> \<bar>x\<bar> * 2 ^ k" "\<bar>x\<bar> * 2 ^ k < 2 ^ 53" "k \<le> 1074"
    and "\<bar>x * 2 ^ k - of_int m\<bar> < 1 / 2 \<or> (\<bar>x * 2 ^ k - of_int m\<bar> = 1 / 2 \<and> even m)"
  shows "nearest x = of_int m / 2 ^ k"
proof -
  have p: "(2::real) ^ k = 2 powr of_int (int k)"
    by (simp add: powr_realpow)
  have "2 powr 52 \<le> \<bar>x\<bar> * 2 powr of_int (int k)" "\<bar>x\<bar> * 2 powr of_int (int k) < 2 powr 53"
    using assms(1,2) by (simp_all add: p powr_numeral)
  then have "2 powr 52 / 2 powr of_int (int k) \<le> \<bar>x\<bar>" "\<bar>x\<bar> < 2 powr 53 / 2 powr of_int (int k)"
    by (simp_all add: field_simps)
  then have "2 powr of_int (52 - int k) \<le> \<bar>x\<bar>" "\<bar>x\<bar> < 2 powr (of_int (52 - int k) + 1)"
    by (simp_all add: powr_diff)
  then have b: "binade x = 52 - int k"
    by (rule binade_eq)
  have "x \<noteq> 0" using assms(1) by auto
  have u: "ulp x = 1 / 2 ^ k"
    using assms(3) by (simp add: ulp_def b max_def p powr_minus field_simps)
  have "roundEven (x * 2 ^ k) = m"
    using assms(4) by (rule roundEven_eq)
  then show ?thesis
    using \<open>x \<noteq> 0\<close> by (simp add: nearest_def u)
qed

lemma nearest_zero: "nearest 0 = 0"
  by (simp add: nearest_def)

lemma nearest_nonpos: "x \<le> 0 \<Longrightarrow> nearest x \<le> 0"
  using nearest_nonneg [of "- x"] by (simp add: nearest_minus)

lemma nearest_1024: "nearest 1024 = 1024"
  using nearest_at [where x = 1024 and k = 42 and m = "2 ^ 52"] by simp

text \<open>Below 1024 a double is less than \<open>2 ^ (- 44)\<close> away.\<close>

lemma nearest_error:
  assumes "0 \<le> x" "x < 1024"
  shows "\<bar>nearest x - x\<bar> \<le> 1 / 2 ^ 44"
proof (cases "x = 0")
  case True
  then show ?thesis by (simp add: nearest_def)
next
  case False
  with assms have pos: "0 < x" by simp
  have p10: "(2::real) powr 10 = 1024"
    by (simp add: powr_numeral)
  have "2 powr of_int (binade x) \<le> x"
    using binade_bounds(1) [OF False] pos by simp
  also have "x < 2 powr 10"
    using assms(2) by (simp only: p10)
  finally have "real_of_int (binade x) < 10"
    by (rule powr_less_cancel) simp
  then have b: "binade x \<le> 9" by linarith
  have "real_of_int (max (binade x) (- 1022) - 52) \<le> - 43"
    using b by simp
  then have "ulp x \<le> 2 powr (- 43)"
    unfolding ulp_def by (subst powr_le_cancel_iff) simp_all
  also have "\<dots> = 1 / 2 ^ 43"
    by (simp add: powr_minus_divide powr_numeral)
  finally have u: "ulp x \<le> 1 / 2 ^ 43" .
  have "\<bar>nearest x - x\<bar> = \<bar>of_int (roundEven (x / ulp x)) - x / ulp x\<bar> * ulp x"
  proof -
    have "nearest x - x = (of_int (roundEven (x / ulp x)) - x / ulp x) * ulp x"
      using False ulp_positive [of x] by (simp add: nearest_def field_simps)
    then show ?thesis
      using ulp_positive [of x] by (simp add: abs_mult)
  qed
  also have "\<dots> \<le> 1 / 2 * ulp x"
    using roundEven_near [of "x / ulp x"] ulp_positive [of x] by (intro mult_right_mono) simp_all
  also have "\<dots> \<le> 1 / 2 * (1 / 2 ^ 43)"
    using u by simp
  finally show ?thesis by simp
qed

lemma nearest_error_bounds:
  assumes "0 \<le> x" "x < 1024"
  shows "nearest x \<le> x + 1 / 2 ^ 44" "x - 1 / 2 ^ 44 \<le> nearest x"
  using nearest_error [OF assms] by (simp_all only: abs_le_iff) linarith+

lemma below_1024:
  assumes "nearest x < 1024"
  shows "x < 1024"
proof (rule ccontr)
  assume "\<not> x < 1024"
  then have "nearest 1024 \<le> nearest x"
    by (intro nearest_mono) simp
  with assms show False by (simp add: nearest_1024)
qed

subsection \<open>Double arithmetic: the order\<close>

lemma round64_NaN: "round64 v = NaN \<longleftrightarrow> v = NaN"
  by (cases v) simp_all

lemma round64_mono:
  assumes "js_le a b"
  shows "js_le (round64 a) (round64 b)"
proof (cases a)
  case a: (Num x)
  show ?thesis
  proof (cases b)
    case b: (Num y)
    with a assms have xy: "x \<le> y" by (auto simp: js_le_def)
    have n: "nearest x \<le> nearest y"
      using xy by (rule nearest_mono)
    have s: "0 < x \<Longrightarrow> 0 \<le> nearest x" "\<not> 0 < x \<Longrightarrow> nearest x \<le> 0"
      "0 < y \<Longrightarrow> 0 \<le> nearest y" "\<not> 0 < y \<Longrightarrow> nearest y \<le> 0"
      using nearest_nonneg [of x] nearest_nonpos [of x] nearest_nonneg [of y] nearest_nonpos [of y]
      by simp_all
    show ?thesis
      using n s xy unfolding a b by (auto simp: js_le_def)
  next
    case PosInf
    then show ?thesis using a by (simp add: js_le_def)
  next
    case NegInf
    then show ?thesis using a assms by (simp add: js_le_def)
  next
    case NaN
    then show ?thesis using assms by (simp add: js_le_def)
  qed
next
  case PosInf
  then show ?thesis using assms by (cases b) (simp_all add: js_le_def)
next
  case NegInf
  then show ?thesis using assms by (cases b) (simp_all add: js_le_def)
next
  case NaN
  then show ?thesis using assms by (simp add: js_le_def)
qed

lemma js_add_tracks: "tracks a b \<Longrightarrow> tracks (js_add a t) (js_add b t)"
  by (cases a; cases b; cases t) (simp_all add: tracks_def js_le_def)

lemma round64_tracks: "tracks a b \<Longrightarrow> tracks (round64 a) (round64 b)"
  using round64_mono [of a b] by (auto simp: tracks_def round64_NaN)

lemma add64_tracks: "tracks a b \<Longrightarrow> tracks (add64 a t) (add64 b t)"
  unfolding add64_def by (intro round64_tracks js_add_tracks)

lemma tracks_not_lower: "tracks a b \<Longrightarrow> \<not> js_lt b a"
  by (cases a; cases b) (auto simp: tracks_def js_le_def)

lemma js_mul_30_mono: "js_le a b \<Longrightarrow> js_le (js_mul a (Num 30)) (js_mul b (Num 30))"
  by (cases a; cases b) (simp_all add: js_le_def signed_inf_def)

lemma js_add_0_mono: "js_le a b \<Longrightarrow> js_le (js_add (Num 0) a) (js_add (Num 0) b)"
  by (cases a; cases b) (simp_all add: js_le_def)

text \<open>The popularity block, of a popularity that is a number or an infinity.\<close>

lemma popularity_term:
  assumes "v \<noteq> NaN"
  shows "addPopularity64 (item\<lparr>popularity := Some v\<rparr>) (Num 0) = add64 (Num 0) (mul64 v (Num 30))"
  using assms by (cases v) (simp_all add: addPopularity64_def add64_def mul64_def nearest_zero)

lemma popularity_tracks:
  assumes "js_lt p q"
  shows "tracks (addPopularity64 (item\<lparr>popularity := Some p\<rparr>) (Num 0))
           (addPopularity64 (item\<lparr>popularity := Some q\<rparr>) (Num 0))"
proof -
  from assms have pq: "p \<noteq> NaN" "q \<noteq> NaN" "js_le p q"
    by (cases p; cases q; simp add: js_le_def)+
  have "js_le (add64 (Num 0) (mul64 p (Num 30))) (add64 (Num 0) (mul64 q (Num 30)))"
    unfolding add64_def mul64_def
    by (intro round64_mono js_add_0_mono js_mul_30_mono pq(3))
  then show ?thesis
    by (simp add: popularity_term pq tracks_def)
qed

lemma blocks_track:
  assumes "tracks a b"
  shows "tracks (addAttendance64 item a) (addAttendance64 item b)"
    and "tracks (addRecency64 tm now item a) (addRecency64 tm now item b)"
    and "tracks (addProximity64 c item a) (addProximity64 c item b)"
    and "tracks (addCompleteness64 item a) (addCompleteness64 item b)"
    and "tracks (addCategoryBoost64 item a) (addCategoryBoost64 item b)"
    and "tracks (addTimeRelevance64 tm now item a) (addTimeRelevance64 tm now item b)"
  using assms
  by (auto simp: addAttendance64_def addRecency64_def addProximity64_def addCompleteness64_def
        addCategoryBoost64_def addTimeRelevance64_def Let_def add64_tracks
      split: option.splits prod.splits)

subsection \<open>Double arithmetic: the terms of the recommended score\<close>

text \<open>
  After the popularity block the score is a sum of at most ten further terms, none of
  which depends on the popularity; when the attendee count is not negative, none of
  them lowers the sum.
\<close>

lemma frame64:
  "addAttendance64 (item\<lparr>popularity := pp\<rparr>) = addAttendance64 item"
  "addRecency64 tm now (item\<lparr>popularity := pp\<rparr>) = addRecency64 tm now item"
  "addProximity64 c (item\<lparr>popularity := pp\<rparr>) = addProximity64 c item"
  "addCompleteness64 (item\<lparr>popularity := pp\<rparr>) = addCompleteness64 item"
  "addCategoryBoost64 (item\<lparr>popularity := pp\<rparr>) = addCategoryBoost64 item"
  "addTimeRelevance64 tm now (item\<lparr>popularity := pp\<rparr>) = addTimeRelevance64 tm now item"
  by (simp_all add: fun_eq_iff addAttendance64_def addRecency64_def addProximity64_def
        addCompleteness64_def addCategoryBoost64_def addTimeRelevance64_def)

lemma no_term:
  assumes "\<forall>s. f s = s"
  shows "\<exists>ts. length ts \<le> k \<and> (\<forall>t\<in>set ts. atLeastZero t) \<and> (\<forall>s. f s = foldl add64 s ts)"
  using assms by (intro exI [of _ "[]"]) simp

lemma one_term:
  assumes "\<forall>s. f s = add64 s t" "atLeastZero t"
  shows "\<exists>ts. length ts \<le> Suc k \<and> (\<forall>t\<in>set ts. atLeastZero t) \<and> (\<forall>s. f s = foldl add64 s ts)"
  using assms by (intro exI [of _ "[t]"]) simp

lemma maybe_term:
  assumes "(\<forall>s. f s = s) \<or> (\<forall>s. f s = add64 s t)" "atLeastZero t"
  shows "\<exists>ts. length ts \<le> Suc 0 \<and> (\<forall>t\<in>set ts. atLeastZero t) \<and> (\<forall>s. f s = foldl add64 s ts)"
  using assms no_term [of f "Suc 0"] one_term [of f t 0] by blast

lemma then_terms:
  assumes "\<exists>ts. length ts \<le> j \<and> (\<forall>t\<in>set ts. atLeastZero t) \<and> (\<forall>s. f s = foldl add64 s ts)"
    and "\<exists>ts. length ts \<le> k \<and> (\<forall>t\<in>set ts. atLeastZero t) \<and> (\<forall>s. g s = foldl add64 s ts)"
  shows "\<exists>ts. length ts \<le> j + k \<and> (\<forall>t\<in>set ts. atLeastZero t) \<and> (\<forall>s. g (f s) = foldl add64 s ts)"
proof -
  from assms obtain us vs where
    "length us \<le> j" "\<forall>t\<in>set us. atLeastZero t" "\<forall>s. f s = foldl add64 s us"
    "length vs \<le> k" "\<forall>t\<in>set vs. atLeastZero t" "\<forall>s. g s = foldl add64 s vs"
    by blast
  then show ?thesis
    by (intro exI [of _ "us @ vs"]) auto
qed

lemma atLeastZero_Num: "atLeastZero (Num r) \<longleftrightarrow> 0 \<le> r"
  by (auto simp: atLeastZero_def js_le_def)

lemma js_max_0_atLeastZero: "atLeastZero (js_max (Num 0) v)"
  by (cases v) (simp_all add: atLeastZero_def js_max_def js_le_def)

lemma round64_atLeastZero: "atLeastZero v \<Longrightarrow> atLeastZero (round64 v)"
  using round64_mono [of "Num 0" v] by (auto simp: atLeastZero_def round64_NaN nearest_zero)

lemma js_min_10_atLeastZero: "atLeastZero v \<Longrightarrow> atLeastZero (js_min (Num 10) v)"
  by (cases v) (auto simp: atLeastZero_def js_min_def js_le_def)

lemma times_2_atLeastZero: "atLeastZero v \<Longrightarrow> atLeastZero (mul64 v (Num 2))"
  unfolding mul64_def
  by (intro round64_atLeastZero, cases v) (auto simp: atLeastZero_def js_le_def signed_inf_def)

lemma add64_atLeastZero: "atLeastZero a \<Longrightarrow> atLeastZero b \<Longrightarrow> atLeastZero (add64 a b)"
  unfolding add64_def
  by (intro round64_atLeastZero, cases a; cases b) (auto simp: atLeastZero_def js_le_def)

lemma attendance_atLeastZero:
  assumes "js_le (Num 0) n"
  shows "atLeastZero (js_min (Num 10) (mul64 (log10_64 (add64 n (Num 1))) (Num 2)))"
proof -
  have "js_le (round64 (Num 1)) (round64 (js_add n (Num 1)))"
    using assms by (intro round64_mono, cases n) (simp_all add: js_le_def)
  moreover have "round64 (Num 1) = Num 1"
    using nearest_at [where x = 1 and k = 52 and m = "2 ^ 52"] by simp
  ultimately have "js_le (Num 1) (add64 n (Num 1))"
    by (simp add: add64_def)
  then have "atLeastZero (js_log10 (add64 n (Num 1)))"
    by (cases "add64 n (Num 1)") (auto simp: atLeastZero_def js_le_def)
  then show ?thesis
    unfolding log10_64_def
    by (intro js_min_10_atLeastZero times_2_atLeastZero round64_atLeastZero)
qed

lemma terms_attendance:
  assumes "nonNegative (attendeeCount item)"
  shows "\<exists>ts. length ts \<le> Suc 0 \<and> (\<forall>t\<in>set ts. atLeastZero t) \<and>
           (\<forall>s. addAttendance64 item s = foldl add64 s ts)"
proof (cases "attendeeCount item")
  case None
  then show ?thesis
    by (intro no_term) (simp add: addAttendance64_def)
next
  case (Some n)
  with assms have "js_le (Num 0) n" by (simp add: nonNegative_def)
  then have "atLeastZero (js_min (Num 10) (mul64 (log10_64 (add64 n (Num 1))) (Num 2)))"
    by (rule attendance_atLeastZero)
  moreover have "(\<forall>s. addAttendance64 item s = s) \<or>
      (\<forall>s. addAttendance64 item s =
         add64 s (js_min (Num 10) (mul64 (log10_64 (add64 n (Num 1))) (Num 2))))"
    using Some by (cases "truthy n") (simp_all add: addAttendance64_def)
  ultimately show ?thesis
    using maybe_term by blast
qed

lemma terms_recency:
  "\<exists>ts. length ts \<le> Suc 0 \<and> (\<forall>t\<in>set ts. atLeastZero t) \<and>
     (\<forall>s. addRecency64 tm now item s = foldl add64 s ts)"
proof (cases "lastUpdated item")
  case None
  then show ?thesis
    by (intro no_term) (simp add: addRecency64_def)
next
  case (Some u)
  define t where "t = js_max (Num 0) (sub64 (Num 20)
      (div64 (div64 (sub64 (Num (real_of_int now)) (getTime tm u)) (Num (1000 * 60 * 60))) (Num 24)))"
  have "(\<forall>s. addRecency64 tm now item s = s) \<or> (\<forall>s. addRecency64 tm now item s = add64 s t)"
    using Some by (cases "u = []") (simp_all add: addRecency64_def t_def)
  moreover have "atLeastZero t"
    unfolding t_def by (rule js_max_0_atLeastZero)
  ultimately show ?thesis
    using maybe_term by blast
qed

lemma terms_proximity:
  "\<exists>ts. length ts \<le> Suc 0 \<and> (\<forall>t\<in>set ts. atLeastZero t) \<and>
     (\<forall>s. addProximity64 c item s = foldl add64 s ts)"
proof (cases "\<exists>c0 c1 la lo. c = Some (c0, c1) \<and> lat item = Some la \<and> lng item = Some lo")
  case False
  then show ?thesis
    by (intro no_term) (auto simp: addProximity64_def split: option.splits prod.splits)
next
  case True
  then obtain c0 c1 la lo where v: "c = Some (c0, c1)" "lat item = Some la" "lng item = Some lo"
    by blast
  define t where
    "t = js_max (Num 0) (sub64 (Num 20) (div64 (getDistance64 c0 c1 la lo) (Num 1000)))"
  have "(\<forall>s. addProximity64 c item s = s) \<or> (\<forall>s. addProximity64 c item s = add64 s t)"
    using v by (cases "truthy la"; cases "truthy lo") (simp_all add: addProximity64_def t_def)
  moreover have "atLeastZero t"
    unfolding t_def by (rule js_max_0_atLeastZero)
  ultimately show ?thesis
    using maybe_term by blast
qed

lemma constants_atLeastZero: "atLeastZero (Num 3)" "atLeastZero (Num 5)" "atLeastZero (Num 1)"
  by (simp_all add: atLeastZero_def js_le_def)

lemma terms_completeness:
  "\<exists>ts. length ts \<le> 5 \<and> (\<forall>t\<in>set ts. atLeastZero t) \<and>
     (\<forall>s. addCompleteness64 item s = foldl add64 s ts)"
proof -
  define f where "f = (\<lambda>b s. if b then add64 s (Num 3) else s)"
  have one: "\<exists>ts. length ts \<le> Suc 0 \<and> (\<forall>t\<in>set ts. atLeastZero t) \<and>
      (\<forall>s. f b s = foldl add64 s ts)" for b
    by (intro maybe_term [where t = "Num 3"]) (simp_all add: f_def constants_atLeastZero)
  have eq: "addCompleteness64 item s =
      f (priceMin item \<noteq> None) (f (truthyS (address item)) (f (truthyS (venueName item))
        (f (truthyS (imageUrl item)) (f (truthyS (description item)) s))))" for s
    by (simp add: addCompleteness64_def f_def)
  note two = then_terms [OF one [of "truthyS (description item)"] one [of "truthyS (imageUrl item)"]]
  note three = then_terms [OF two one [of "truthyS (venueName item)"]]
  note four = then_terms [OF three one [of "truthyS (address item)"]]
  note five = then_terms [OF four one [of "priceMin item \<noteq> None"]]
  from five show ?thesis
    by (simp add: eq eval_nat_numeral)
qed

lemma weight_atLeastZero: "atLeastZero (orElse (categoryWeights64 cat) (Num 1))"
proof -
  have "atLeastZero (categoryWeights cat)"
    by (cases cat) (simp_all add: atLeastZero_def js_le_def)
  then have "atLeastZero (categoryWeights64 cat)"
    unfolding categoryWeights64_def by (rule round64_atLeastZero)
  then show ?thesis
    by (simp add: orElse_def constants_atLeastZero)
qed

lemma boost_atLeastZero:
  "atLeastZero acc \<Longrightarrow>
   atLeastZero (foldl (\<lambda>acc cat. add64 acc (orElse (categoryWeights64 cat) (Num 1))) acc cats)"
  by (induction cats arbitrary: acc) (simp_all add: add64_atLeastZero weight_atLeastZero)

lemma terms_category:
  "\<exists>ts. length ts \<le> Suc 0 \<and> (\<forall>t\<in>set ts. atLeastZero t) \<and>
     (\<forall>s. addCategoryBoost64 item s = foldl add64 s ts)"
proof -
  define t where "t = js_min (Num 10) (mul64
      (foldl (\<lambda>acc cat. add64 acc (orElse (categoryWeights64 cat) (Num 1))) (Num 0) (category item))
      (Num 2))"
  have "atLeastZero (Num 0)"
    by (simp add: atLeastZero_def js_le_def)
  then have "atLeastZero t"
    unfolding t_def by (intro js_min_10_atLeastZero times_2_atLeastZero boost_atLeastZero)
  moreover have "\<forall>s. addCategoryBoost64 item s = add64 s t"
    by (simp add: addCategoryBoost64_def t_def)
  ultimately show ?thesis
    using one_term [of "addCategoryBoost64 item" t 0] by simp
qed

lemma terms_time:
  "\<exists>ts. length ts \<le> Suc 0 \<and> (\<forall>t\<in>set ts. atLeastZero t) \<and>
     (\<forall>s. addTimeRelevance64 tm now item s = foldl add64 s ts)"
proof (cases "startTime item")
  case None
  then show ?thesis
    by (intro no_term) (simp add: addTimeRelevance64_def)
next
  case (Some u)
  define d where
    "d = div64 (sub64 (getTime tm u) (Num (real_of_int now))) (Num (1000 * 60 * 60 * 24))"
  have eq: "addTimeRelevance64 tm now item s =
      (if u = [] then s
       else if js_lt d (Num 1) then add64 s (Num 5)
       else if js_lt d (Num 3) then add64 s (Num 3)
       else if js_lt d (Num 7) then add64 s (Num 1)
       else s)" for s
    using Some by (simp add: addTimeRelevance64_def d_def)
  have "(\<forall>s. addTimeRelevance64 tm now item s = s) \<or>
      (\<forall>s. addTimeRelevance64 tm now item s = add64 s (Num 5)) \<or>
      (\<forall>s. addTimeRelevance64 tm now item s = add64 s (Num 3)) \<or>
      (\<forall>s. addTimeRelevance64 tm now item s = add64 s (Num 1))"
    by (cases "u = []"; cases "js_lt d (Num 1)"; cases "js_lt d (Num 3)"; cases "js_lt d (Num 7)")
      (simp_all add: eq)
  then show ?thesis
    using maybe_term [of "addTimeRelevance64 tm now item" "Num 5"]
      maybe_term [of "addTimeRelevance64 tm now item" "Num 3"]
      maybe_term [of "addTimeRelevance64 tm now item" "Num 1"] constants_atLeastZero
    by blast
qed

lemma terms_recommended:
  assumes "nonNegative (attendeeCount item)"
  shows "\<exists>ts. length ts \<le> 10 \<and> (\<forall>t\<in>set ts. atLeastZero t) \<and>
           (\<forall>v. recommendedScore64 tm nowR nowT c (item\<lparr>popularity := Some v\<rparr>) =
                  foldl add64 (addPopularity64 (item\<lparr>popularity := Some v\<rparr>) (Num 0)) ts)"
proof -
  note one = then_terms [OF terms_attendance [OF assms] terms_recency [of tm nowR item]]
  note two = then_terms [OF one terms_proximity [of c item]]
  note three = then_terms [OF two terms_completeness [of item]]
  note four = then_terms [OF three terms_category [of item]]
  note five = then_terms [OF four terms_time [of tm nowT item]]
  from five obtain ts where ts: "length ts \<le> 10" "\<forall>t\<in>set ts. atLeastZero t"
    "\<forall>s. addTimeRelevance64 tm nowT item (addCategoryBoost64 item (addCompleteness64 item
            (addProximity64 c item (addRecency64 tm nowR item (addAttendance64 item s))))) =
          foldl add64 s ts"
    by auto
  have "\<forall>v. recommendedScore64 tm nowR nowT c (item\<lparr>popularity := Some v\<rparr>) =
      foldl add64 (addPopularity64 (item\<lparr>popularity := Some v\<rparr>) (Num 0)) ts"
    by (simp add: recommendedScore64_def frame64 ts(3))
  with ts(1,2) show ?thesis by blast
qed

subsection \<open>Double arithmetic: sums of terms that lower no sum\<close>

lemma add64_Num:
  assumes "add64 a t = Num s"
  shows "\<exists>x r. a = Num x \<and> t = Num r \<and> s = nearest (x + r)"
  using assms by (cases a; cases t) (auto simp: add64_def split: if_splits)

lemma add64_finite:
  assumes "\<bar>nearest (x + r)\<bar> < 1024"
  shows "add64 (Num x) (Num r) = Num (nearest (x + r))"
proof -
  have "(1024::real) \<le> 2 ^ 1024" by simp
  with assms have "\<not> 2 ^ 1024 \<le> \<bar>nearest (x + r)\<bar>" by linarith
  then show ?thesis by (simp add: add64_def)
qed

lemma sum_start_Num: "foldl add64 v ts = Num S \<Longrightarrow> \<exists>b. v = Num b"
proof (induction ts arbitrary: v)
  case Nil
  then show ?case by simp
next
  case (Cons t ts)
  then have "\<exists>b. add64 v t = Num b" by simp
  then show ?case using add64_Num by blast
qed

lemma sum_nonneg:
  assumes "\<forall>t\<in>set ts. atLeastZero t" "0 \<le> b" "foldl add64 (Num b) ts = Num S"
  shows "0 \<le> S"
  using assms
proof (induction ts arbitrary: b)
  case Nil
  then show ?case by simp
next
  case (Cons t ts)
  from Cons.prems(3) obtain b' where b': "add64 (Num b) t = Num b'"
    using sum_start_Num [of "add64 (Num b) t" ts S] by auto
  then obtain r where r: "t = Num r" "b' = nearest (b + r)"
    using add64_Num by blast
  have "0 \<le> r"
    using Cons.prems(1) r(1) by (simp add: atLeastZero_Num)
  then have "0 \<le> b'"
    using Cons.prems(2) r(2) by (simp add: nearest_nonneg)
  moreover have "foldl add64 (Num b') ts = Num S"
    using Cons.prems(3) b' by simp
  ultimately show ?case
    using Cons.IH Cons.prems(1) by simp
qed

text \<open>
  Two sums of the same terms that stay below 1024: each addition brings them closer by
  at most two roundings.
\<close>

lemma sum_gap:
  assumes "\<forall>t\<in>set ts. atLeastZero t" "0 \<le> a" "a \<le> b"
    and "foldl add64 (Num b) ts = Num S" "S < 1024"
  shows "b < 1024 \<and>
         (\<exists>A. foldl add64 (Num a) ts = Num A \<and> 0 \<le> A \<and> A \<le> S \<and>
               b - a - real (length ts) / 2 ^ 43 \<le> S - A)"
  using assms
proof (induction ts arbitrary: S rule: rev_induct)
  case Nil
  then show ?case by simp
next
  case (snoc t ts)
  from snoc.prems(4) have step: "add64 (foldl add64 (Num b) ts) t = Num S"
    by simp
  then obtain B r where B: "foldl add64 (Num b) ts = Num B" and r: "t = Num r"
    and S: "S = nearest (B + r)"
    using add64_Num by blast
  have terms: "\<forall>t\<in>set ts. atLeastZero t"
    using snoc.prems(1) by simp
  have r0: "0 \<le> r"
    using snoc.prems(1) r by (simp add: atLeastZero_Num)
  have b0: "0 \<le> b"
    using snoc.prems(2,3) by simp
  have B0: "0 \<le> B"
    using sum_nonneg [OF terms b0 B] .
  have "B + r < 1024"
    using snoc.prems(5) S below_1024 by simp
  with r0 have B1: "B < 1024" by simp
  from snoc.IH [OF terms snoc.prems(2,3) B B1] obtain A where
    b1: "b < 1024" and A: "foldl add64 (Num a) ts = Num A" "0 \<le> A" "A \<le> B"
    and gap: "b - a - real (length ts) / 2 ^ 43 \<le> B - A"
    by blast
  define A' where "A' = nearest (A + r)"
  have le: "A' \<le> S"
    unfolding A'_def S using A(3) by (intro nearest_mono) simp
  have A'0: "0 \<le> A'"
    unfolding A'_def using A(2) r0 by (intro nearest_nonneg) simp
  have "\<bar>A'\<bar> < 1024"
    using le A'0 snoc.prems(5) by simp
  then have "add64 (Num A) (Num r) = Num A'"
    unfolding A'_def by (rule add64_finite)
  then have sum: "foldl add64 (Num a) (ts @ [t]) = Num A'"
    using A(1) r by simp
  define e :: real where "e = 1 / 2 ^ 44"
  have "B + r - e \<le> nearest (B + r)"
    unfolding e_def using B0 r0 \<open>B + r < 1024\<close> by (intro nearest_error_bounds) simp_all
  moreover have "nearest (A + r) \<le> A + r + e"
    unfolding e_def using A(2,3) r0 \<open>B + r < 1024\<close> by (intro nearest_error_bounds) simp_all
  ultimately have "B - A - 2 * e \<le> S - A'"
    unfolding S A'_def by linarith
  moreover have "real (length (ts @ [t])) / 2 ^ 43 = real (length ts) / 2 ^ 43 + 2 * e"
    by (simp add: e_def add_divide_distrib)
  ultimately have "b - a - real (length (ts @ [t])) / 2 ^ 43 \<le> S - A'"
    using gap by linarith
  with b1 sum A'0 le show ?case by blast
qed

text \<open>The popularity term of a non-negative popularity, when it stays below 1024.\<close>

lemma popularity_gap:
  assumes "0 \<le> x" "x \<le> y"
    and "add64 (Num 0) (mul64 (Num y) (Num 30)) = Num Y" "Y < 1024"
  shows "\<exists>X. add64 (Num 0) (mul64 (Num x) (Num 30)) = Num X \<and> 0 \<le> X \<and> X \<le> Y \<and>
           30 * (y - x) - 1 / 2 ^ 42 \<le> Y - X"
proof -
  from assms(3) obtain my where my: "mul64 (Num y) (Num 30) = Num my" "Y = nearest (0 + my)"
    using add64_Num by blast
  then have my': "my = nearest (y * 30)"
    by (auto simp: mul64_def split: if_splits)
  have y0: "0 \<le> y * 30" and x0: "0 \<le> x * 30" and xy: "x * 30 \<le> y * 30"
    using assms(1,2) by simp_all
  have my0: "0 \<le> my"
    unfolding my' using y0 by (rule nearest_nonneg)
  have my1: "my < 1024"
    using assms(4) my(2) below_1024 by simp
  then have y1: "y * 30 < 1024"
    unfolding my' by (rule below_1024)
  define mx where "mx = nearest (x * 30)"
  define X where "X = nearest mx"
  have mx0: "0 \<le> mx"
    unfolding mx_def using x0 by (rule nearest_nonneg)
  have mxy: "mx \<le> my"
    unfolding mx_def my' using xy by (rule nearest_mono)
  have X0: "0 \<le> X"
    unfolding X_def using mx0 by (rule nearest_nonneg)
  have XY: "X \<le> Y"
    unfolding X_def my(2) using mxy by (intro nearest_mono) simp
  have big: "(1024::real) \<le> 2 ^ 1024" by simp
  have "\<not> 2 ^ 1024 \<le> \<bar>mx\<bar>"
    using mx0 mxy my1 big by linarith
  then have m: "mul64 (Num x) (Num 30) = Num mx"
    by (simp add: mul64_def mx_def)
  have "\<bar>nearest (0 + mx)\<bar> < 1024"
    using X0 XY assms(4) by (simp add: X_def)
  then have X: "add64 (Num 0) (mul64 (Num x) (Num 30)) = Num X"
    unfolding m X_def using add64_finite [of 0 mx] by simp
  define e :: real where "e = 1 / 2 ^ 44"
  have e: "1 / 2 ^ 42 = 4 * e"
    by (simp add: e_def)
  have "y * 30 - e \<le> my"
    unfolding e_def my' using y0 y1 by (rule nearest_error_bounds)
  moreover have "my - e \<le> nearest my"
    unfolding e_def using my0 my1 by (rule nearest_error_bounds)
  moreover have "mx \<le> x * 30 + e"
    unfolding e_def mx_def by (rule nearest_error_bounds) (use x0 xy y1 in linarith)+
  moreover have "nearest mx \<le> mx + e"
    unfolding e_def by (rule nearest_error_bounds) (use mx0 mxy my1 in linarith)+
  ultimately have "y * 30 - x * 30 - 4 * e \<le> nearest my - nearest mx"
    by linarith
  then have "30 * (y - x) - 4 * e \<le> nearest my - nearest mx"
    by (simp add: algebra_simps)
  then have "30 * (y - x) - 1 / 2 ^ 42 \<le> Y - X"
    unfolding X_def my(2) e by simp
  with X X0 XY show ?thesis by blast
qed

lemma sum_atLeastZero:
  "atLeastZero v \<Longrightarrow> \<forall>t\<in>set ts. atLeastZero t \<Longrightarrow> atLeastZero (foldl add64 v ts)"
  by (induction ts arbitrary: v) (simp_all add: add64_atLeastZero)

lemma gap_arith:
  fixes d :: real
  assumes "d \<le> e1" "e1 + e2 < 30 * g" "30 * (y - x) - e2 \<le> Y - X" "Y - X - d \<le> S - A"
    and "x + g \<le> y"
  shows "A < S"
proof -
  have "30 * g \<le> 30 * (y - x)"
    using assms(5) by simp
  with assms(1-4) show ?thesis by linarith
qed

lemma recommended_strict:
  assumes "0 \<le> x" "x + 1 / 10 ^ 9 \<le> y" "nonNegative (attendeeCount item)"
    and "js_lt (recommendedScore64 tm nowR nowT c (item\<lparr>popularity := Some (Num y)\<rparr>)) (Num 1024)"
  shows "js_lt (recommendedScore64 tm nowR nowT c (item\<lparr>popularity := Some (Num x)\<rparr>))
           (recommendedScore64 tm nowR nowT c (item\<lparr>popularity := Some (Num y)\<rparr>))"
proof -
  obtain ts where ts: "length ts \<le> 10" "\<forall>t\<in>set ts. atLeastZero t"
    "\<forall>v. recommendedScore64 tm nowR nowT c (item\<lparr>popularity := Some v\<rparr>) =
           foldl add64 (addPopularity64 (item\<lparr>popularity := Some v\<rparr>) (Num 0)) ts"
    using terms_recommended [OF assms(3)] by blast
  have pop: "addPopularity64 (item\<lparr>popularity := Some (Num v)\<rparr>) (Num 0) =
      add64 (Num 0) (mul64 (Num v) (Num 30))" for v
    by (rule popularity_term) simp
  define start where "start = (\<lambda>v. add64 (Num 0) (mul64 (Num v) (Num 30)))"
  have score: "recommendedScore64 tm nowR nowT c (item\<lparr>popularity := Some (Num v)\<rparr>) =
      foldl add64 (start v) ts" for v
    by (simp add: ts(3) pop start_def)
  have y0: "0 \<le> y" using assms(1,2) by simp
  have "atLeastZero (Num (y * 30))"
    using y0 by (simp add: atLeastZero_Num)
  then have "atLeastZero (mul64 (Num y) (Num 30))"
    unfolding mul64_def js_mul.simps by (rule round64_atLeastZero)
  moreover have "atLeastZero (Num 0)"
    by (simp add: atLeastZero_Num)
  ultimately have s0: "atLeastZero (start y)"
    unfolding start_def by (intro add64_atLeastZero)
  then have "atLeastZero (foldl add64 (start y) ts)"
    using ts(2) by (rule sum_atLeastZero)
  moreover have "js_lt (foldl add64 (start y) ts) (Num 1024)"
    using assms(4) by (simp add: score)
  ultimately obtain S where S: "foldl add64 (start y) ts = Num S" "S < 1024"
    by (cases "foldl add64 (start y) ts") (auto simp: atLeastZero_def js_le_def)
  then obtain Y where Y: "start y = Num Y"
    using sum_start_Num by blast
  with s0 have Y0: "0 \<le> Y"
    by (simp add: atLeastZero_Num)
  have S': "foldl add64 (Num Y) ts = Num S"
    using S(1) Y by simp
  have Y1: "Y < 1024"
    using sum_gap [OF ts(2) Y0 order_refl S' S(2)] by simp
  have "x \<le> y" using assms(2) by simp
  from popularity_gap [OF assms(1) this Y [unfolded start_def] Y1] obtain X where
    X: "start x = Num X" "0 \<le> X" "X \<le> Y" and g1: "30 * (y - x) - 1 / 2 ^ 42 \<le> Y - X"
    unfolding start_def by blast
  from sum_gap [OF ts(2) X(2,3) S' S(2)] obtain A where
    A: "foldl add64 (Num X) ts = Num A" and g2: "Y - X - real (length ts) / 2 ^ 43 \<le> S - A"
    by blast
  have "real (length ts) / 2 ^ 43 \<le> 10 / 2 ^ 43"
    using ts(1) by (simp add: divide_right_mono)
  moreover have "(10::real) / 2 ^ 43 + 1 / 2 ^ 42 < 30 * (1 / 10 ^ 9)"
    by simp
  ultimately have "A < S"
    using g1 g2 assms(2) by (rule gap_arith)
  then show ?thesis
    by (simp add: score X(1) A S(1))
qed

subsection \<open>Double arithmetic: the example item\<close>

lemma round64_at:
  fixes k :: nat
  assumes "2 ^ 52 \<le> \<bar>x\<bar> * 2 ^ k" "\<bar>x\<bar> * 2 ^ k < 2 ^ 53" "k \<le> 1074"
    and "\<bar>x * 2 ^ k - of_int m\<bar> < 1 / 2 \<or> (\<bar>x * 2 ^ k - of_int m\<bar> = 1 / 2 \<and> even m)"
  shows "round64 (Num x) = Num (of_int m / 2 ^ k)"
proof -
  have n: "nearest x = of_int m / 2 ^ k"
    using assms by (rule nearest_at)
  have "\<bar>x * 2 ^ k - of_int m\<bar> \<le> 1 / 2"
    using assms(4) by linarith
  moreover have "\<bar>x * 2 ^ k\<bar> = \<bar>x\<bar> * 2 ^ k"
    by (simp add: abs_mult)
  moreover have "\<bar>real_of_int m\<bar> \<le> \<bar>x * 2 ^ k\<bar> + \<bar>x * 2 ^ k - of_int m\<bar>"
    by linarith
  moreover have "(2::real) ^ 53 + 1 / 2 < 2 ^ 54"
    by simp
  ultimately have "\<bar>real_of_int m\<bar> < 2 ^ 54"
    using assms(2) by linarith
  moreover have "\<bar>real_of_int m / 2 ^ k\<bar> \<le> \<bar>real_of_int m\<bar> / 1"
    unfolding abs_divide by (intro divide_left_mono) simp_all
  moreover have "(2::real) ^ 54 \<le> 2 ^ 1024"
    by (intro power_increasing) simp_all
  ultimately have "\<not> 2 ^ 1024 \<le> \<bar>nearest x\<bar>"
    unfolding n by linarith
  then show ?thesis
    by (simp add: n)
qed

text \<open>
  The example item, last updated on 1 June 2025 and ranked on 10 June at 10:00: after
  the popularity block the score takes a recency term and a category term.
\<close>

lemma example_score64:
  assumes "p \<noteq> 0"
  shows "recommendedScore64 parseUTC 1749549600000 1749549600000 None
           (exampleItem\<lparr>popularity := Some (Num p)\<rparr>) =
         add64 (add64 (add64 (Num 0) (mul64 (Num p) (Num 30)))
                  (js_max (Num 0) (sub64 (Num 20)
                     (div64 (div64 (sub64 (Num 1749549600000) (Num 1748736000000)) (Num 3600000))
                        (Num 24)))))
           (js_min (Num 10)
              (mul64 (add64 (Num 0) (orElse (categoryWeights64 Event) (Num 1))) (Num 2)))"
  using assms
  by (simp add: recommendedScore64_def addPopularity64_def addAttendance64_def addRecency64_def
        addProximity64_def addCompleteness64_def addCategoryBoost64_def addTimeRelevance64_def
        exampleItem_def getTime_def parse_examples)

lemma example_recency:
  "js_max (Num 0) (sub64 (Num 20)
     (div64 (div64 (sub64 (Num 1749549600000) (Num 1748736000000)) (Num 3600000)) (Num 24))) =
   Num (5957887007042219 / 2 ^ 49)"
proof -
  have 1: "sub64 (Num 1749549600000) (Num 1748736000000) = Num 813600000"
    using round64_at [where x = 813600000 and k = 23 and m = 6824971468800000]
    by (simp add: sub64_def js_sub_def)
  have 2: "div64 (Num 813600000) (Num 3600000) = Num 226"
    using round64_at [where x = 226 and k = 45 and m = 7951668092076032]
    by (simp add: div64_def)
  have 3: "div64 (Num 226) (Num 24) = Num (5301112061384021 / 2 ^ 49)"
    using round64_at [where x = "226 / 24" and k = 49 and m = 5301112061384021]
    by (simp add: div64_def)
  have 4: "sub64 (Num 20) (Num (5301112061384021 / 2 ^ 49)) = Num (5957887007042219 / 2 ^ 49)"
    using round64_at [where x = "20 - 5301112061384021 / 2 ^ 49" and k = 49
        and m = 5957887007042219]
    by (simp add: sub64_def js_sub_def)
  have 5: "js_max (Num 0) (Num (5957887007042219 / 2 ^ 49)) = Num (5957887007042219 / 2 ^ 49)"
    by (simp add: js_max_def)
  show ?thesis
    unfolding 1 2 3 4 5 by (rule refl)
qed

lemma example_category:
  "js_min (Num 10) (mul64 (add64 (Num 0) (orElse (categoryWeights64 Event) (Num 1))) (Num 2)) =
   Num 2"
proof -
  have 1: "categoryWeights64 Event = Num 1"
    using round64_at [where x = 1 and k = 52 and m = 4503599627370496]
    by (simp add: categoryWeights64_def)
  have 2: "orElse (Num 1) (Num 1) = Num 1"
    by (simp add: orElse_def)
  have 3: "add64 (Num 0) (Num 1) = Num 1"
    using round64_at [where x = 1 and k = 52 and m = 4503599627370496]
    by (simp add: add64_def)
  have 4: "mul64 (Num 1) (Num 2) = Num 2"
    using round64_at [where x = 2 and k = 51 and m = 4503599627370496]
    by (simp add: mul64_def)
  have 5: "js_min (Num 10) (Num 2) = Num 2"
    by (simp add: js_min_def)
  show ?thesis
    unfolding 1 2 3 4 5 by (rule refl)
qed

text \<open>
  The doubles written \<^verbatim>\<open>0.2\<close> and \<^verbatim>\<open>0.8\<close>, and the double that follows the first:
  \<open>0.20000000000000004\<close>.
\<close>

lemma example_literals:
  "round64 (Num 0.2) = Num (7205759403792794 / 2 ^ 55)"
  "round64 (Num 0.8) = Num (7205759403792794 / 2 ^ 53)"
  "round64 (Num (7205759403792795 / 2 ^ 55)) = Num (7205759403792795 / 2 ^ 55)"
  using round64_at [where x = "0.2" and k = 55 and m = 7205759403792794]
    round64_at [where x = "0.8" and k = 53 and m = 7205759403792794]
    round64_at [where x = "7205759403792795 / 2 ^ 55" and k = 55 and m = 7205759403792795]
  by simp_all

text \<open>The scores of the example item: 18.583333333333336 twice, and 36.583333333333336.\<close>

lemma example_score_fifth:
  "recommendedScore64 parseUTC 1749549600000 1749549600000 None
     (exampleItem\<lparr>popularity := Some (Num (7205759403792794 / 2 ^ 55))\<rparr>) =
   Num (5230743317206358 / 2 ^ 48)"
proof -
  have 1: "mul64 (Num (7205759403792794 / 2 ^ 55)) (Num 30) = Num 6"
    using round64_at [where x = "7205759403792794 / 2 ^ 55 * 30" and k = 50
        and m = 6755399441055744]
    by (simp add: mul64_def)
  have 2: "add64 (Num 0) (Num 6) = Num 6"
    using round64_at [where x = 6 and k = 50 and m = 6755399441055744]
    by (simp add: add64_def)
  have 3: "add64 (Num 6) (Num (5957887007042219 / 2 ^ 49)) = Num (4667793363785046 / 2 ^ 48)"
    using round64_at [where x = "6 + 5957887007042219 / 2 ^ 49" and k = 48
        and m = 4667793363785046]
    by (simp add: add64_def)
  have 4: "add64 (Num (4667793363785046 / 2 ^ 48)) (Num 2) = Num (5230743317206358 / 2 ^ 48)"
    using round64_at [where x = "4667793363785046 / 2 ^ 48 + 2" and k = 48
        and m = 5230743317206358]
    by (simp add: add64_def)
  have nz: "(7205759403792794 / 2 ^ 55 :: real) \<noteq> 0"
    by simp
  show ?thesis
    unfolding example_score64 [OF nz] example_recency example_category 1 2 3 4 by (rule refl)
qed

lemma example_score_next:
  "recommendedScore64 parseUTC 1749549600000 1749549600000 None
     (exampleItem\<lparr>popularity := Some (Num (7205759403792795 / 2 ^ 55))\<rparr>) =
   Num (5230743317206358 / 2 ^ 48)"
proof -
  have 1: "mul64 (Num (7205759403792795 / 2 ^ 55)) (Num 30) = Num (6755399441055745 / 2 ^ 50)"
    using round64_at [where x = "7205759403792795 / 2 ^ 55 * 30" and k = 50
        and m = 6755399441055745]
    by (simp add: mul64_def)
  have 2: "add64 (Num 0) (Num (6755399441055745 / 2 ^ 50)) = Num (6755399441055745 / 2 ^ 50)"
    using round64_at [where x = "6755399441055745 / 2 ^ 50" and k = 50
        and m = 6755399441055745]
    by (simp add: add64_def)
  have 3: "add64 (Num (6755399441055745 / 2 ^ 50)) (Num (5957887007042219 / 2 ^ 49)) =
      Num (4667793363785046 / 2 ^ 48)"
    using round64_at [where x = "6755399441055745 / 2 ^ 50 + 5957887007042219 / 2 ^ 49"
        and k = 48 and m = 4667793363785046]
    by (simp add: add64_def)
  have 4: "add64 (Num (4667793363785046 / 2 ^ 48)) (Num 2) = Num (5230743317206358 / 2 ^ 48)"
    using round64_at [where x = "4667793363785046 / 2 ^ 48 + 2" and k = 48
        and m = 5230743317206358]
    by (simp add: add64_def)
  have nz: "(7205759403792795 / 2 ^ 55 :: real) \<noteq> 0"
    by simp
  show ?thesis
    unfolding example_score64 [OF nz] example_recency example_category 1 2 3 4 by (rule refl)
qed

lemma example_score_four_fifths:
  "recommendedScore64 parseUTC 1749549600000 1749549600000 None
     (exampleItem\<lparr>popularity := Some (Num (7205759403792794 / 2 ^ 53))\<rparr>) =
   Num (5148646448999083 / 2 ^ 47)"
proof -
  have 1: "mul64 (Num (7205759403792794 / 2 ^ 53)) (Num 30) = Num 24"
    using round64_at [where x = "7205759403792794 / 2 ^ 53 * 30" and k = 48
        and m = 6755399441055744]
    by (simp add: mul64_def)
  have 2: "add64 (Num 0) (Num 24) = Num 24"
    using round64_at [where x = 24 and k = 48 and m = 6755399441055744]
    by (simp add: add64_def)
  have 3: "add64 (Num 24) (Num (5957887007042219 / 2 ^ 49)) = Num (4867171472288427 / 2 ^ 47)"
    using round64_at [where x = "24 + 5957887007042219 / 2 ^ 49" and k = 47
        and m = 4867171472288427]
    by (simp add: add64_def)
  have 4: "add64 (Num (4867171472288427 / 2 ^ 47)) (Num 2) = Num (5148646448999083 / 2 ^ 47)"
    using round64_at [where x = "4867171472288427 / 2 ^ 47 + 2" and k = 47
        and m = 5148646448999083]
    by (simp add: add64_def)
  have nz: "(7205759403792794 / 2 ^ 53 :: real) \<noteq> 0"
    by simp
  show ?thesis
    unfolding example_score64 [OF nz] example_recency example_category 1 2 3 4 by (rule refl)
qed

subsection \<open>Ranker: the popularity in the recommended score\<close>

lemma recommended_tracks:
  assumes "js_lt p q"
  shows "tracks (recommendedScore64 tm nowR nowT c (item\<lparr>popularity := Some p\<rparr>))
           (recommendedScore64 tm nowR nowT c (item\<lparr>popularity := Some q\<rparr>))"
  unfolding recommendedScore64_def Let_def frame64
  by (intro blocks_track popularity_tracks assms)

text \<open>
  C9, as amended. Two items that agree in every field but the popularity are scored by
  the recommended strategy at the same readings of the clock. The score of the item of
  higher popularity is never the lower one. It is strictly the greater one when the
  popularities are not negative and at least a billionth apart, the attendee count is
  not negative, and the score of the item of higher popularity is a number below 1024;
  so for the popularities 0.2 and 0.8 of the example.
\<close>

theorem popularity_never_lowers_recommended_score:
  "(js_lt p q \<longrightarrow>
      \<not> js_lt (recommendedScore64 tm nowR nowT c (item\<lparr>popularity := Some q\<rparr>))
           (recommendedScore64 tm nowR nowT c (item\<lparr>popularity := Some p\<rparr>))) \<and>
   (0 \<le> x \<and> x + 1 / 10 ^ 9 \<le> y \<and> nonNegative (attendeeCount item) \<and>
    js_lt (recommendedScore64 tm nowR nowT c (item\<lparr>popularity := Some (Num y)\<rparr>)) (Num 1024) \<longrightarrow>
      js_lt (recommendedScore64 tm nowR nowT c (item\<lparr>popularity := Some (Num x)\<rparr>))
        (recommendedScore64 tm nowR nowT c (item\<lparr>popularity := Some (Num y)\<rparr>)))"
proof (intro conjI impI)
  assume "js_lt p q"
  then have "tracks (recommendedScore64 tm nowR nowT c (item\<lparr>popularity := Some p\<rparr>))
      (recommendedScore64 tm nowR nowT c (item\<lparr>popularity := Some q\<rparr>))"
    by (rule recommended_tracks)
  then show "\<not> js_lt (recommendedScore64 tm nowR nowT c (item\<lparr>popularity := Some q\<rparr>))
      (recommendedScore64 tm nowR nowT c (item\<lparr>popularity := Some p\<rparr>))"
    by (rule tracks_not_lower)
next
  assume "0 \<le> x \<and> x + 1 / 10 ^ 9 \<le> y \<and> nonNegative (attendeeCount item) \<and>
    js_lt (recommendedScore64 tm nowR nowT c (item\<lparr>popularity := Some (Num y)\<rparr>)) (Num 1024)"
  then show "js_lt (recommendedScore64 tm nowR nowT c (item\<lparr>popularity := Some (Num x)\<rparr>))
      (recommendedScore64 tm nowR nowT c (item\<lparr>popularity := Some (Num y)\<rparr>))"
    using recommended_strict by blast
qed

theorem popularity_never_lowers_recommended_score_witness:
  "\<not> js_lt (recommendedScore64 parseUTC 1749549600000 1749549600000 None
              (exampleItem\<lparr>popularity := Some (Num (7205759403792794 / 2 ^ 53))\<rparr>))
         (recommendedScore64 parseUTC 1749549600000 1749549600000 None
              (exampleItem\<lparr>popularity := Some (Num (7205759403792794 / 2 ^ 55))\<rparr>)) \<and>
   js_lt (recommendedScore64 parseUTC 1749549600000 1749549600000 None
            (exampleItem\<lparr>popularity := Some (Num (7205759403792794 / 2 ^ 55))\<rparr>))
         (recommendedScore64 parseUTC 1749549600000 1749549600000 None
            (exampleItem\<lparr>popularity := Some (Num (7205759403792794 / 2 ^ 53))\<rparr>)) \<and>
   round64 (Num 0.2) = Num (7205759403792794 / 2 ^ 55) \<and>
   round64 (Num 0.8) = Num (7205759403792794 / 2 ^ 53)"
proof -
  note inst = popularity_never_lowers_recommended_score
    [where p = "Num (7205759403792794 / 2 ^ 55)" and q = "Num (7205759403792794 / 2 ^ 53)"
       and x = "7205759403792794 / 2 ^ 55" and y = "7205759403792794 / 2 ^ 53"
       and tm = parseUTC and nowR = 1749549600000 and nowT = 1749549600000 and c = None
       and item = exampleItem]
  have order: "js_lt (Num (7205759403792794 / 2 ^ 55)) (Num (7205759403792794 / 2 ^ 53))"
    by simp
  have gap: "(0::real) \<le> 7205759403792794 / 2 ^ 55"
    "(7205759403792794 / 2 ^ 55 :: real) + 1 / 10 ^ 9 \<le> 7205759403792794 / 2 ^ 53"
    by simp_all
  have count: "nonNegative (attendeeCount exampleItem)"
    by (simp add: nonNegative_def exampleItem_def)
  have bound: "js_lt (recommendedScore64 parseUTC 1749549600000 1749549600000 None
      (exampleItem\<lparr>popularity := Some (Num (7205759403792794 / 2 ^ 53))\<rparr>)) (Num 1024)"
    unfolding example_score_four_fifths by simp
  from inst order gap count bound show ?thesis
    using example_literals by blast
qed

text \<open>
  C9 as the specification words it, strictly greater for every pair, fails between
  neighbouring doubles: with the popularity \<^verbatim>\<open>0.2\<close> and with the next double above it,
  the example item gets the same score, \<open>5230743317206358 / 2 ^ 48\<close>, written
  \<open>18.583333333333336\<close>. The product \<open>popularity \<times> 30\<close> differs in its last bit, and the
  sum with the recency term rounds both to the same double.
\<close>

theorem neighbouring_popularities_counterexample:
  "js_lt (Num (7205759403792794 / 2 ^ 55)) (Num (7205759403792795 / 2 ^ 55)) \<and>
   round64 (Num 0.2) = Num (7205759403792794 / 2 ^ 55) \<and>
   round64 (Num (7205759403792795 / 2 ^ 55)) = Num (7205759403792795 / 2 ^ 55) \<and>
   recommendedScore64 parseUTC 1749549600000 1749549600000 None
     (exampleItem\<lparr>popularity := Some (Num (7205759403792794 / 2 ^ 55))\<rparr>) =
     Num (5230743317206358 / 2 ^ 48) \<and>
   recommendedScore64 parseUTC 1749549600000 1749549600000 None
     (exampleItem\<lparr>popularity := Some (Num (7205759403792795 / 2 ^ 55))\<rparr>) =
     Num (5230743317206358 / 2 ^ 48)"
proof -
  have "js_lt (Num (7205759403792794 / 2 ^ 55)) (Num (7205759403792795 / 2 ^ 55))"
    by simp
  then show ?thesis
    using example_literals(1,3) example_score_fifth example_score_next by blast
qed

subsection \<open>Provider fetch orchestrator\<close>

lemma collect_fst: "fst (collectItems results) = concat [v. (name, Fulfilled v) \<leftarrow> results]"
proof (induction results)
  case Nil
  show ?case by (simp add: collectItems_def)
next
  case (Cons r rs)
  obtain name out where r: "r = (name, out)" by (cases r)
  show ?case using Cons by (cases out) (simp_all add: collectItems_def r)
qed

lemma collect_append:
  "fst (collectItems (xs @ ys)) = fst (collectItems xs) @ fst (collectItems ys)"
  by (simp add: collectItems_def)

lemma collect_log_length: "length (snd (collectItems results)) = length results"
proof (induction results)
  case Nil
  show ?case by (simp add: collectItems_def)
next
  case (Cons r rs)
  obtain name out where r: "r = (name, out)" by (cases r)
  show ?case using Cons by (cases out) (simp_all add: collectItems_def r)
qed

lemma fallback_only_when_empty:
  "allItems \<noteq> [] \<Longrightarrow> withFallback mockItems allItems = allItems"
  by (simp add: withFallback_def)

text \<open>
  C4. For every list of provider outcomes, the items collected are those of the
  providers that succeeded, concatenated in the order of the providers. A failed
  provider adds no item and takes none away: with it or without it, the others' items
  are the same; it leaves one line on the console and no error. Of three providers of
  which one fails, the items of the other two are returned.
\<close>

theorem provider_isolation:
  "fst (collectItems results) = concat [v. (name, Fulfilled v) \<leftarrow> results] \<and>
   fst (collectItems (before @ [(name, Rejected reason)] @ after)) =
     fst (collectItems before) @ fst (collectItems after) \<and>
   fst (collectItems [(n1, Rejected reason), (n2, Fulfilled v2), (n3, Fulfilled v3)]) = v2 @ v3 \<and>
   fst (collectItems [(n1, Fulfilled v1), (n2, Rejected reason), (n3, Fulfilled v3)]) = v1 @ v3 \<and>
   fst (collectItems [(n1, Fulfilled v1), (n2, Fulfilled v2), (n3, Rejected reason)]) = v1 @ v2 \<and>
   length (snd (collectItems results)) = length results \<and>
   ((name, Rejected reason) \<in> set results \<longrightarrow>
      Failed name reason \<in> set (snd (collectItems results)))"
proof -
  have logged: "(name, Rejected reason) \<in> set results \<Longrightarrow>
      Failed name reason \<in> set (snd (collectItems results))"
    by (force simp: collectItems_def)
  have three:
    "fst (collectItems [(n1, Rejected reason), (n2, Fulfilled v2), (n3, Fulfilled v3)]) = v2 @ v3"
    "fst (collectItems [(n1, Fulfilled v1), (n2, Rejected reason), (n3, Fulfilled v3)]) = v1 @ v3"
    "fst (collectItems [(n1, Fulfilled v1), (n2, Fulfilled v2), (n3, Rejected reason)]) = v1 @ v2"
    by (simp_all add: collectItems_def)
  have skip: "fst (collectItems (before @ [(name, Rejected reason)] @ after)) =
     fst (collectItems before) @ fst (collectItems after)"
    by (simp add: collectItems_def)
  show ?thesis
    using logged three skip collect_fst [of results] collect_log_length [of results] by blast
qed

theorem provider_isolation_witness:
  "fst (collectItems [(''eventbrite'', Fulfilled [jazzA]), (''opentripmap'', Rejected ''timeout''),
                      (''meetup'', Fulfilled [jazzB])]) = [jazzA, jazzB] \<and>
   snd (collectItems [(''eventbrite'', Fulfilled [jazzA]), (''opentripmap'', Rejected ''timeout''),
                      (''meetup'', Fulfilled [jazzB])]) =
     [ItemCount ''eventbrite'' 1, Failed ''opentripmap'' ''timeout'', ItemCount ''meetup'' 1]"
  using provider_isolation [of "[(''eventbrite'', Fulfilled [jazzA]),
      (''opentripmap'', Rejected ''timeout''), (''meetup'', Fulfilled [jazzB])]"
      "[(''eventbrite'', Fulfilled [jazzA])]" "''opentripmap''" "''timeout''"
      "[(''meetup'', Fulfilled [jazzB])]"]
  by (simp add: collectItems_def)

end
